theory Spec2Isabelle
  imports Complex_Main "HOL-Library.Multiset" "HOL-Library.Product_Lexorder"
begin

section \<open>Data model of the tree node (node\_impl.h)\<close>

text \<open>
  \<open>index_t\<close> is an unsigned index; no statement below depends on its width, so it is a
  natural number. \<open>Precision_t\<close> is a template parameter: it is the type variable \<open>'p\<close>,
  a linear order with a zero.
\<close>

type_synonym index_t = nat

datatype error = OutOfBounds | AssertionFailed | Fatal string

text \<open>
  \<open>Point_t\<close>: a point aliases \<open>dimension\<close> cells of a coordinate buffer and carries the
  original id of the point (\<open>Alias(ptr, id)\<close>, \<open>get_id()\<close>). The buffers are never
  written by the operations below, so the aliased cells are held by value. The class is
  declared outside this file; its two fields are named after its accessors.
\<close>

record 'p Point_t =
  get_ptr :: "'p list"
  get_id :: index_t

text \<open>
  \<open>NNResult\<close>, also the cell type of the \<open>kneighbors_\<close> buffer: the members
  \<open>point_id_\<close>, the id of the point the record belongs to, \<open>nearest_\<close>, the
  neighbour, and \<open>distance_\<close>, the distance to it.
\<close>

record 'p NNResult =
  nn_point_id :: index_t
  nn_nearest :: "'p Point_t"
  nn_distance :: 'p

text \<open>
  The node; a member \<open>x_\<close> of the class is the field \<open>x\<close> of the record. Child
  pointers are handles (\<open>None\<close> is NULL). A buffer is the list of its cells; a NULL
  buffer has no cell, so every access to it is out of bounds.
\<close>

record ('p, 'b, 's) Node =
  box :: 'b
  statistics :: 's
  node_id :: index_t
  num_of_points :: index_t
  left :: "nat option"
  right :: "nat option"
  points :: "'p list"
  index :: "index_t list"
  kneighbors :: "'p NNResult list"
  min_dist_so_far :: 'p

text \<open>
  \<open>NEIGHBORTYPE range\<close>: a floating type selects range search with radius \<open>range\<close>
  (\<open>isStdFloat == true\<close>), an integral type selects \<open>k\<close> nearest neighbours. The
  parameter \<open>range\<close> is written \<open>range0\<close> below.
\<close>

datatype 'p NEIGHBORTYPE = Radius 'p | Knn nat

text \<open>
  What the node's code takes from outside this file: the metric
  \<open>BoundingBox_t::Distance(query_point, ptr, dimension)\<close>, the comparator
  \<open>PairComparator\<close> handed to \<open>std::sort\<close>, \<open>std::sort\<close> itself,
  \<open>numeric_limits<Precision_t>::max()\<close>, and the default-constructed \<open>Point_t\<close> of
  the \<open>dummy\<close> pair. They are parameters of the model. The
  \<open>ComputationsCounter\<close> is taken at \<open>diagnostic = false\<close>, where its updates are
  empty.
\<close>

record 'p Env =
  Distance :: "'p Point_t \<Rightarrow> 'p list \<Rightarrow> nat \<Rightarrow> 'p"
  PairComparator :: "('p \<times> 'p Point_t) \<Rightarrow> ('p \<times> 'p Point_t) \<Rightarrow> bool"
  std_sort :: "(('p \<times> 'p Point_t) \<Rightarrow> ('p \<times> 'p Point_t) \<Rightarrow> bool)
                 \<Rightarrow> ('p \<times> 'p Point_t) list \<Rightarrow> ('p \<times> 'p Point_t) list"
  numeric_limits_max :: 'p
  Point_default :: "'p Point_t"

section \<open>Loops that can fail\<close>

primrec fold_err :: "('s \<Rightarrow> 'a \<Rightarrow> 'e + 's) \<Rightarrow> 'a list \<Rightarrow> 's \<Rightarrow> 'e + 's" where
  "fold_err f [] s = Inr s"
| "fold_err f (x # xs) s = (case f s x of Inl e \<Rightarrow> Inl e | Inr s' \<Rightarrow> fold_err f xs s')"

section \<open>Node::Node, Node::Init\<close>

definition Node_new :: "'b \<Rightarrow> 's \<Rightarrow> index_t \<Rightarrow> index_t \<Rightarrow> 'p \<Rightarrow> ('p, 'b, 's) Node" where
  \<comment> \<open>the constructor: all pointers NULL, id and best distance at their maxima
      (\<open>index_max\<close>, \<open>precision_max\<close>); box, statistics and point count are not set
      by it and take the values given (\<open>box0\<close>, \<open>stats0\<close>, \<open>n0\<close>)\<close>
  "Node_new box0 stats0 n0 index_max precision_max =
     \<lparr>box = box0, statistics = stats0, node_id = index_max, num_of_points = n0,
      left = None, right = None, points = [], index = [], kneighbors = [],
      min_dist_so_far = precision_max\<rparr>"

definition Init_internal ::
  "('p, 'b, 's) Node \<Rightarrow> 'b \<Rightarrow> 's \<Rightarrow> index_t \<Rightarrow> index_t \<Rightarrow> ('p, 'b, 's) Node" where
  \<comment> \<open>the \<open>Init\<close> of an internal node\<close>
  "Init_internal node b st nid n =
     node\<lparr>box := b, statistics := st, node_id := nid, num_of_points := n\<rparr>"

definition Init_leaf ::
  "('p, 'b, 's) Node \<Rightarrow> 'b \<Rightarrow> 's \<Rightarrow> index_t \<Rightarrow> index_t \<Rightarrow> index_t \<Rightarrow> nat
     \<Rightarrow> (index_t \<Rightarrow> nat \<Rightarrow> 'p) \<Rightarrow> (index_t \<Rightarrow> index_t) \<Rightarrow> ('p, 'b, 's) Node" where
  \<comment> \<open>the leaf \<open>Init\<close>: \<open>dataset_At i j\<close> and \<open>dataset_get_id i\<close> are the dataset's accessors\<close>
  "Init_leaf node b st nid start n dimension dataset_At dataset_get_id =
     node\<lparr>box := b, statistics := st, node_id := nid,
          num_of_points := n,
          points := concat (map (\<lambda>i. map (\<lambda>j. dataset_At i j) [0..<dimension])
                                 [start..<start + n]),
          index := map dataset_get_id [start..<start + n]\<rparr>"

section \<open>Node::FindNearest\<close>

text \<open>One iteration of the scan over the leaf's points (the body of the first loop).\<close>

definition scan_step ::
  "'p::linorder Env \<Rightarrow> (index_t \<Rightarrow> index_t \<Rightarrow> bool) \<Rightarrow> ('p, 'b, 's) Node \<Rightarrow> 'p Point_t
     \<Rightarrow> 'p NEIGHBORTYPE \<Rightarrow> nat \<Rightarrow> ('p \<times> 'p Point_t) list \<Rightarrow> index_t
     \<Rightarrow> error + ('p \<times> 'p Point_t) list" where
  "scan_step env AreTheSame node query_point range0 dimension nearest i =
     (if length (index node) \<le> i then Inl OutOfBounds
      else if AreTheSame (index node ! i) (get_id query_point) then Inr nearest
      else if length (points node) < i * dimension + dimension then Inl OutOfBounds
      else
        let ptr = take dimension (drop (i * dimension) (points node));
            dist = Distance env query_point ptr dimension;
            point = \<lparr>get_ptr = ptr, get_id = index node ! i\<rparr>
        in (case range0 of
              Radius r \<Rightarrow> if dist \<le> r then Inr (nearest @ [(dist, point)]) else Inr nearest
            | Knn k \<Rightarrow> Inr (nearest @ [(dist, point)])))"

definition FindNearest_scan ::
  "'p::linorder Env \<Rightarrow> (index_t \<Rightarrow> index_t \<Rightarrow> bool) \<Rightarrow> ('p, 'b, 's) Node \<Rightarrow> 'p Point_t
     \<Rightarrow> 'p NEIGHBORTYPE \<Rightarrow> nat \<Rightarrow> ('p \<times> 'p Point_t) list
     \<Rightarrow> error + ('p \<times> 'p Point_t) list" where
  "FindNearest_scan env AreTheSame node query_point range0 dimension nearest =
     fold_err (scan_step env AreTheSame node query_point range0 dimension)
       [0..<num_of_points node] nearest"

text \<open>
  The iterator of the trim step is an offset from \<open>nearest.begin()\<close>: the loop
  \<open>for(it=nearest.begin(), j=0; j<range; j++) it++\<close> runs before the sort, and the
  iterator is used by \<open>erase\<close> only.
\<close>

definition trim_iterator :: "nat \<Rightarrow> nat" where
  "trim_iterator range0 = fold (\<lambda>j it. Suc it) [0..<range0] 0"

text \<open>
  The same loop under the rule of the standard, that an iterator at \<open>end()\<close> is not
  incremented: \<open>len\<close> is the length of the list.
\<close>

definition trim_iterator_checked :: "nat \<Rightarrow> nat \<Rightarrow> error + nat" where
  "trim_iterator_checked len range0 =
     fold_err (\<lambda>it j. if it < len then Inr (Suc it) else Inl OutOfBounds) [0..<range0] 0"

definition FindNearest ::
  "'p::linorder Env \<Rightarrow> (index_t \<Rightarrow> index_t \<Rightarrow> bool) \<Rightarrow> ('p, 'b, 's) Node \<Rightarrow> 'p Point_t
     \<Rightarrow> ('p \<times> 'p Point_t) list \<Rightarrow> 'p NEIGHBORTYPE \<Rightarrow> nat
     \<Rightarrow> error + ('p \<times> 'p Point_t) list" where
  "FindNearest env AreTheSame node query_point nearest range0 dimension =
     (case FindNearest_scan env AreTheSame node query_point range0 dimension nearest of
        Inl e \<Rightarrow> Inl e
      | Inr nearest1 \<Rightarrow>
          (case range0 of
             Radius r \<Rightarrow> Inr nearest1
           | Knn k \<Rightarrow>
               let it = trim_iterator k;
                   nearest2 = std_sort env (PairComparator env) nearest1
               in if k < length nearest2 then Inr (take it nearest2)
                  else
                    let dummy = (numeric_limits_max env, Point_default env);
                        extra_size = k - length nearest2
                    in Inr (nearest2 @ replicate extra_size dummy)))"

section \<open>Node::InitKNeighbors\<close>

text \<open>
  The two nested loops write \<open>index_[i]\<close> into the \<open>point_id_\<close> member of cell
  \<open>i*knns+j\<close> of \<open>kneighbors_\<close>. The function contains no allocation: the buffer
  is the one the node already has.
\<close>

definition InitKNeighbors_cell ::
  "('p, 'b, 's) Node \<Rightarrow> nat \<Rightarrow> index_t \<Rightarrow> 'p NNResult list \<Rightarrow> nat \<Rightarrow> error + 'p NNResult list" where
  "InitKNeighbors_cell node knns i kn j =
     (if length kn \<le> i * knns + j \<or> length (index node) \<le> i then Inl OutOfBounds
      else Inr (kn[i * knns + j := (kn ! (i * knns + j))\<lparr>nn_point_id := index node ! i\<rparr>]))"

definition InitKNeighbors :: "('p, 'b, 's) Node \<Rightarrow> nat \<Rightarrow> error + ('p, 'b, 's) Node" where
  "InitKNeighbors node knns =
     (case fold_err (\<lambda>kn i. fold_err (InitKNeighbors_cell node knns i) [0..<knns] kn)
             [0..<num_of_points node] (kneighbors node) of
        Inl e \<Rightarrow> Inl e
      | Inr kn \<Rightarrow> Inr (node\<lparr>kneighbors := kn\<rparr>))"

section \<open>Node::ClosestChild, Node::ClosestNode\<close>

definition ClosestChild ::
  "('b \<Rightarrow> nat option \<Rightarrow> nat option \<Rightarrow> 'q \<Rightarrow> nat \<Rightarrow> nat option \<times> nat option)
     \<Rightarrow> ('p, 'b, 's) Node \<Rightarrow> 'q \<Rightarrow> nat \<Rightarrow> nat option \<times> nat option" where
  \<comment> \<open>\<open>box_ClosestChild\<close> is the \<open>ClosestChild\<close> of the box, to which the node delegates\<close>
  "ClosestChild box_ClosestChild node point dimension =
     box_ClosestChild (box node) (left node) (right node) point dimension"

definition ClosestNode ::
  "('b \<Rightarrow> 'b \<Rightarrow> nat \<Rightarrow> 'p::linorder) \<Rightarrow> ('p, 'b, 's) Node \<Rightarrow> ('p, 'b, 's) Node
     \<Rightarrow> ('p, 'b, 's) Node \<Rightarrow> nat
     \<Rightarrow> (('p, 'b, 's) Node \<times> 'p) \<times> (('p, 'b, 's) Node \<times> 'p)" where
  \<comment> \<open>\<open>box_Distance\<close> is \<open>BoundingBox_t::Distance\<close> on two boxes\<close>
  "ClosestNode box_Distance node ptr1 ptr2 dimension =
     (let dist1 = box_Distance (box node) (box ptr1) dimension;
          dist2 = box_Distance (box node) (box ptr2) dimension
      in if dist1 < dist2 then ((ptr1, dist1), (ptr2, dist2))
         else ((ptr2, dist2), (ptr1, dist1)))"

section \<open>The range-result file\<close>

text \<open>
  \<open>range_nn_fp_\<close> is a C stream. The stream is the list of records written so far
  together with the outcomes of the coming \<open>fwrite\<close> calls, given by the
  environment: \<open>None\<close> for a call that writes its record, \<open>Some errno\<close> for a call
  that fails; when the list is used up every call succeeds.
\<close>

record 'p FILE =
  written :: "'p NNResult list"
  outcomes :: "nat option list"

definition fwrite :: "'p NNResult \<Rightarrow> 'p FILE \<Rightarrow> (nat \<times> 'p FILE) + 'p FILE" where
  \<comment> \<open>\<open>Inr\<close>: the call returned 1; \<open>Inl (errno, fp)\<close>: it did not\<close>
  "fwrite result fp =
     (case outcomes fp of
        [] \<Rightarrow> Inr (fp\<lparr>written := written fp @ [result]\<rparr>)
      | None # rest \<Rightarrow> Inr (fp\<lparr>written := written fp @ [result], outcomes := rest\<rparr>)
      | Some errno # rest \<Rightarrow> Inl (errno, fp\<lparr>outcomes := rest\<rparr>))"

definition FATAL :: "string \<Rightarrow> error" where
  \<comment> \<open>Modelled from the spec: \<open>FATAL\<close> is a macro of the library that is not part of
      this file. The spec: a write failure is fatal for the in-flight query; the
      operation aborts with an error describing the underlying I/O cause. The abort is
      the error value, which carries the formatted message.\<close>
  "FATAL message = Fatal message"

section \<open>Node::FindAllNearest\<close>

text \<open>
  The body of the loop over the query node's points, for \<open>k\<close> nearest neighbours. The
  loop state is the query node and \<open>max_local_distance\<close>. \<open>FindNearest\<close> is a method
  of the node \<open>this\<close>; it reads the members \<open>num_of_points_\<close>, \<open>index_\<close> and
  \<open>points_\<close> only, which the loop does not write, so \<open>this\<close> is the same value
  in every iteration also when the query node is \<open>this\<close> itself. The debug
  assertion on the size of \<open>temp\<close> is kept as a check. The bounds of the query
  point's id and coordinates are checked where the point is formed.
\<close>

definition knn_step ::
  "'p::linorder Env \<Rightarrow> (index_t \<Rightarrow> index_t \<Rightarrow> bool) \<Rightarrow> ('p, 'b, 's) Node \<Rightarrow> nat \<Rightarrow> nat
     \<Rightarrow> ('p, 'b, 's) Node \<times> 'p \<Rightarrow> index_t \<Rightarrow> error + (('p, 'b, 's) Node \<times> 'p)" where
  "knn_step env AreTheSame this k dimension st i =
     (let query_node = fst st; max_local_distance = snd st; kn = kneighbors query_node
      in if k = 0 \<or> length kn \<le> i * k + k - 1 then Inl OutOfBounds
         else
           let distance = nn_distance (kn ! (i * k + k - 1));
               temp = map (\<lambda>j. (nn_distance (kn ! (i * k + j)), nn_nearest (kn ! (i * k + j))))
                          [0..<k]
           in if length (index query_node) \<le> i
                   \<or> length (points query_node) < i * dimension + dimension
              then Inl OutOfBounds
              else
                let point = \<lparr>get_ptr = take dimension (drop (i * dimension) (points query_node)),
                             get_id = index query_node ! i\<rparr>
                in (case FindNearest env AreTheSame this point temp (Knn k) dimension of
                      Inl e \<Rightarrow> Inl e
                    | Inr temp' \<Rightarrow>
                        if length temp' \<noteq> k then Inl AssertionFailed
                        else
                          let kn' = fold (\<lambda>j b. b[i * k + j :=
                                             (b ! (i * k + j))\<lparr>nn_distance := fst (temp' ! j),
                                                                nn_nearest := snd (temp' ! j)\<rparr>])
                                         [0..<k] kn
                          in Inr (query_node\<lparr>kneighbors := kn'\<rparr>,
                                  if max_local_distance < fst (last temp')
                                  then fst (last temp') else max_local_distance)))"

text \<open>
  The body of the same loop for range search: the loop state is the stream; a failed
  \<open>fwrite\<close> ends the query with the stream as the failed call left it.
\<close>

definition write_result ::
  "(nat \<Rightarrow> string) \<Rightarrow> index_t \<Rightarrow> 'p FILE \<Rightarrow> ('p \<times> 'p Point_t) \<Rightarrow> (error \<times> 'p FILE) + 'p FILE" where
  "write_result strerror qid fp t =
     (let result = \<lparr>nn_point_id = qid, nn_nearest = snd t, nn_distance = fst t\<rparr>
      in case fwrite result fp of
           Inl (errno, fp') \<Rightarrow>
             Inl (FATAL (''Error while writing range nearest neighbors: '' @ strerror errno @ ''\<newline>''), fp')
         | Inr fp' \<Rightarrow> Inr fp')"

definition range_step ::
  "'p::linorder Env \<Rightarrow> (nat \<Rightarrow> string) \<Rightarrow> (index_t \<Rightarrow> index_t \<Rightarrow> bool) \<Rightarrow> ('p, 'b, 's) Node
     \<Rightarrow> 'p \<Rightarrow> nat \<Rightarrow> ('p, 'b, 's) Node \<Rightarrow> 'p FILE \<Rightarrow> index_t \<Rightarrow> (error \<times> 'p FILE) + 'p FILE" where
  "range_step env strerror AreTheSame this r dimension query_node fp i =
     (if length (index query_node) \<le> i
          \<or> length (points query_node) < i * dimension + dimension
      then Inl (OutOfBounds, fp)
      else
        let point = \<lparr>get_ptr = take dimension (drop (i * dimension) (points query_node)),
                     get_id = index query_node ! i\<rparr>
        in (case FindNearest env AreTheSame this point [] (Radius r) dimension of
              Inl e \<Rightarrow> Inl (e, fp)
            | Inr temp \<Rightarrow> fold_err (write_result strerror (index query_node ! i)) temp fp))"

text \<open>
  \<open>FindAllNearest\<close>: the reference parameter \<open>max_neighbor_distance\<close> and the query
  node come back updated, with the stream.
\<close>

definition FindAllNearest ::
  "'p::{linorder,zero} Env \<Rightarrow> (nat \<Rightarrow> string) \<Rightarrow> (index_t \<Rightarrow> index_t \<Rightarrow> bool)
     \<Rightarrow> ('p, 'b, 's) Node \<Rightarrow> ('p, 'b, 's) Node \<Rightarrow> 'p \<Rightarrow> 'p NEIGHBORTYPE \<Rightarrow> nat \<Rightarrow> 'p FILE
     \<Rightarrow> (error \<times> 'p FILE) + (('p, 'b, 's) Node \<times> 'p \<times> 'p FILE)" where
  "FindAllNearest env strerror AreTheSame this query_node max_neighbor_distance range0
       dimension fp =
     (case range0 of
        Knn k \<Rightarrow>
          (case fold_err (knn_step env AreTheSame this k dimension)
                  [0..<num_of_points query_node] (query_node, 0) of
             Inl e \<Rightarrow> Inl (e, fp)
           | Inr (query_node', max_local_distance) \<Rightarrow>
               Inr (query_node',
                    if max_neighbor_distance > max_local_distance
                    then max_local_distance else max_neighbor_distance,
                    fp))
      | Radius r \<Rightarrow>
          (case fold_err (range_step env strerror AreTheSame this r dimension query_node)
                  [0..<num_of_points query_node] fp of
             Inl e \<Rightarrow> Inl e
           | Inr fp' \<Rightarrow> Inr (query_node, r, fp')))"

section \<open>Node::Print\<close>

text \<open>
  \<open>Print\<close> is a method that is not \<open>const\<close>: its result is the string and the node
  after the call. \<open>IsLeaf\<close>, the box's \<open>Print\<close> and the \<open>printf\<close> conversions
  \<open>%llu\<close> and \<open>%lg\<close> are parameters.
\<close>

definition Print_point ::
  "(nat \<Rightarrow> string) \<Rightarrow> ('p \<Rightarrow> string) \<Rightarrow> ('p, 'b, 's) Node \<Rightarrow> nat \<Rightarrow> string \<Rightarrow> index_t
     \<Rightarrow> error + string" where
  "Print_point fmt_llu fmt_lg node dimension str i =
     (case fold_err (\<lambda>s j. if length (points node) \<le> i * dimension + j then Inl OutOfBounds
                           else Inr (s @ fmt_lg (points node ! (i * dimension + j)) @ '' ''))
             [0..<dimension] str of
        Inl e \<Rightarrow> Inl e
      | Inr s \<Rightarrow> if length (index node) \<le> i then Inl OutOfBounds
                 else Inr (s @ ''-'' @ fmt_llu (index node ! i) @ '' \<newline>''))"

definition Print ::
  "(('p, 'b, 's) Node \<Rightarrow> bool) \<Rightarrow> ('b \<Rightarrow> nat \<Rightarrow> string) \<Rightarrow> (nat \<Rightarrow> string) \<Rightarrow> ('p \<Rightarrow> string)
     \<Rightarrow> ('p, 'b, 's) Node \<Rightarrow> nat \<Rightarrow> error + (string \<times> ('p, 'b, 's) Node)" where
  "Print IsLeaf box_Print fmt_llu fmt_lg node dimension =
     (let str = (if \<not> IsLeaf node then ''Node: '' @ fmt_llu (node_id node) @ ''\<newline>''
                 else ''Leaf: '' @ fmt_llu (node_id node) @ ''\<newline>'');
          str = str @ box_Print (box node) dimension;
          str = str @ ''num_of_points: '';
          str = str @ fmt_llu (num_of_points node) @ ''\<newline>''
      in if IsLeaf node
         then (case fold_err (Print_point fmt_llu fmt_lg node dimension)
                      [0..<num_of_points node] str of
                 Inl e \<Rightarrow> Inl e
               | Inr s \<Rightarrow> Inr (s, node))
         else Inr (str, node))"

section \<open>Well-formed leaves and the brute-force scan\<close>

text \<open>
  A leaf as \<open>Init\<close> builds it holds at least \<open>num_of_points_\<close> ids and
  \<open>num_of_points_ * dimension\<close> coordinates. \<open>brute_force\<close> is the linear scan the
  spec compares with: the non-excluded points among the given slots, each with its
  distance to the query point, in slot order.
\<close>

definition leaf_wf :: "('p, 'b, 's) Node \<Rightarrow> nat \<Rightarrow> bool" where
  "leaf_wf node dimension \<longleftrightarrow>
     num_of_points node \<le> length (index node)
     \<and> num_of_points node * dimension \<le> length (points node)"

definition leaf_point :: "('p, 'b, 's) Node \<Rightarrow> nat \<Rightarrow> index_t \<Rightarrow> 'p Point_t" where
  "leaf_point node dimension i =
     \<lparr>get_ptr = take dimension (drop (i * dimension) (points node)), get_id = index node ! i\<rparr>"

definition brute_force ::
  "'p Env \<Rightarrow> (index_t \<Rightarrow> index_t \<Rightarrow> bool) \<Rightarrow> ('p, 'b, 's) Node \<Rightarrow> 'p Point_t \<Rightarrow> nat
     \<Rightarrow> index_t list \<Rightarrow> ('p \<times> 'p Point_t) list" where
  "brute_force env AreTheSame node query_point dimension is =
     map (\<lambda>i. (Distance env query_point (get_ptr (leaf_point node dimension i)) dimension,
               leaf_point node dimension i))
         (filter (\<lambda>i. \<not> AreTheSame (index node ! i) (get_id query_point)) is)"

definition admits :: "'p::linorder NEIGHBORTYPE \<Rightarrow> ('p \<times> 'a) \<Rightarrow> bool" where
  "admits range0 c = (case range0 of Radius r \<Rightarrow> fst c \<le> r | Knn k \<Rightarrow> True)"

section \<open>What is assumed of std::sort and of the comparator\<close>

text \<open>
  \<open>std::sort\<close> returns a permutation of its input in which no element is smaller,
  by the comparator, than an element before it; the order of equivalent elements is not
  fixed. The comparator orders pairs by their distance; what it does with equal
  distances is left open.
\<close>

definition sort_conforms :: "('a \<Rightarrow> 'a \<Rightarrow> bool) \<Rightarrow> (('a \<Rightarrow> 'a \<Rightarrow> bool) \<Rightarrow> 'a list \<Rightarrow> 'a list) \<Rightarrow> bool" where
  "sort_conforms cmp srt \<longleftrightarrow>
     (\<forall>xs. mset (srt cmp xs) = mset xs \<and> sorted_wrt (\<lambda>a b. \<not> cmp b a) (srt cmp xs))"

definition orders_by_distance :: "(('p::linorder \<times> 'a) \<Rightarrow> ('p \<times> 'a) \<Rightarrow> bool) \<Rightarrow> bool" where
  "orders_by_distance cmp \<longleftrightarrow> (\<forall>a b. (fst a < fst b \<longrightarrow> cmp a b) \<and> (cmp a b \<longrightarrow> fst a \<le> fst b))"

definition env_ok :: "'p::linorder Env \<Rightarrow> bool" where
  "env_ok env \<longleftrightarrow> sort_conforms (PairComparator env) (std_sort env)
                  \<and> orders_by_distance (PairComparator env)"

definition knn_trim :: "'p::linorder Env \<Rightarrow> nat \<Rightarrow> ('p \<times> 'p Point_t) list \<Rightarrow> ('p \<times> 'p Point_t) list" where
  "knn_trim env k nearest1 =
     (let nearest2 = std_sort env (PairComparator env) nearest1
      in if k < length nearest2 then take k nearest2
         else nearest2 @ replicate (k - length nearest2) (numeric_limits_max env, Point_default env))"

section \<open>One conforming instance\<close>

text \<open>
  Insertion sort, which \<open>std::sort\<close> implementations run on short ranges, with the
  comparator on the distance alone, the squared Euclidean metric and the discriminator
  that compares ids. They instantiate the parameters at concrete inputs.
\<close>

fun insert_sorted :: "('a \<Rightarrow> 'a \<Rightarrow> bool) \<Rightarrow> 'a \<Rightarrow> 'a list \<Rightarrow> 'a list" where
  "insert_sorted cmp x [] = [x]"
| "insert_sorted cmp x (y # ys) = (if cmp x y then x # y # ys else y # insert_sorted cmp x ys)"

definition insertion_sort :: "('a \<Rightarrow> 'a \<Rightarrow> bool) \<Rightarrow> 'a list \<Rightarrow> 'a list" where
  "insertion_sort cmp xs = foldl (\<lambda>sorted x. insert_sorted cmp x sorted) [] xs"

definition by_distance :: "('p::linorder \<times> 'a) \<Rightarrow> ('p \<times> 'a) \<Rightarrow> bool" where
  \<comment> \<open>a comparator of pairs that looks at the distance alone\<close>
  "by_distance a b \<longleftrightarrow> fst a < fst b"

definition distance_id :: "('p \<times> 'p Point_t) \<Rightarrow> 'p \<times> index_t" where
  \<comment> \<open>the distance and the id of a candidate, ordered lexicographically\<close>
  "distance_id c = (fst c, get_id (snd c))"

definition by_distance_then_id :: "('p::linorder \<times> 'p Point_t) \<Rightarrow> ('p \<times> 'p Point_t) \<Rightarrow> bool" where
  \<comment> \<open>Modelled from the spec: \<open>PairComparator\<close> is declared outside this file, which
      only names it in the call of \<open>std::sort\<close>. The spec: the result is ordered
      ascending by distance, ties broken by ascending original point id.\<close>
  "by_distance_then_id a b \<longleftrightarrow>
     fst a < fst b \<or> (fst a = fst b \<and> get_id (snd a) < get_id (snd b))"

definition squared_distance :: "('a::comm_ring_1) Point_t \<Rightarrow> 'a list \<Rightarrow> nat \<Rightarrow> 'a" where
  \<comment> \<open>Modelled from the spec: the metric is declared outside this file; the spec's
      default metric is the squared Euclidean distance.\<close>
  "squared_distance query_point ptr dimension =
     (\<Sum>j\<leftarrow>[0..<dimension]. (get_ptr query_point ! j - ptr ! j) * (get_ptr query_point ! j - ptr ! j))"

definition same_id :: "index_t \<Rightarrow> index_t \<Rightarrow> bool" where
  \<comment> \<open>Modelled from the spec: the discriminator is declared outside this file; the
      spec's default discriminator compares the ids for equality.\<close>
  "same_id a b \<longleftrightarrow> a = b"

definition int_env :: "int Env" where
  \<comment> \<open>\<open>Precision_t = int\<close>, with \<open>numeric_limits<int>::max()\<close>; the default-constructed
      point has no coordinates and the id 0\<close>
  "int_env = \<lparr>Distance = squared_distance, PairComparator = by_distance,
              std_sort = insertion_sort, numeric_limits_max = 2147483647,
              Point_default = \<lparr>get_ptr = [], get_id = 0\<rparr>\<rparr>"

definition spec_env :: "int Env" where
  \<comment> \<open>the same, with the comparator of the spec\<close>
  "spec_env = int_env\<lparr>PairComparator := by_distance_then_id\<rparr>"

definition leaf_of :: "int list \<Rightarrow> index_t list \<Rightarrow> (int, unit, unit) Node" where
  \<comment> \<open>the plane leaf that \<open>Init\<close> builds from a dataset with the given coordinates and ids\<close>
  "leaf_of ps ids = Init_leaf (Node_new () () 0 0 2147483647) () () 7 0 (length ids) 2
       (\<lambda>i j. ps ! (i * 2 + j)) (\<lambda>i. ids ! i)"

section \<open>The range search, as the spec words it\<close>

text \<open>
  \<open>radius_slots\<close> is the brute-force answer: the slots of the leaf whose point is not
  excluded and lies within the radius, in slot order. \<open>range_records\<close> lists, for
  each point of the query node in turn, one record for each such slot.
  \<open>first_fault os n\<close> is the position and the \<open>errno\<close> of the first failing call among
  the next \<open>n\<close> calls of \<open>fwrite\<close>.
\<close>

definition entry :: "'p Env \<Rightarrow> ('p, 'b, 's) Node \<Rightarrow> 'p Point_t \<Rightarrow> nat \<Rightarrow> index_t \<Rightarrow> 'p \<times> 'p Point_t" where
  "entry env node query_point dimension i =
     (Distance env query_point (get_ptr (leaf_point node dimension i)) dimension,
      leaf_point node dimension i)"

definition radius_slots ::
  "'p::linorder Env \<Rightarrow> (index_t \<Rightarrow> index_t \<Rightarrow> bool) \<Rightarrow> ('p, 'b, 's) Node \<Rightarrow> 'p Point_t \<Rightarrow> 'p
     \<Rightarrow> nat \<Rightarrow> index_t list" where
  "radius_slots env AreTheSame node query_point r dimension =
     filter (\<lambda>i. \<not> AreTheSame (index node ! i) (get_id query_point)
                 \<and> fst (entry env node query_point dimension i) \<le> r)
            [0..<num_of_points node]"

definition NNResult_of :: "index_t \<Rightarrow> ('p \<times> 'p Point_t) \<Rightarrow> 'p NNResult" where
  "NNResult_of qid t = \<lparr>nn_point_id = qid, nn_nearest = snd t, nn_distance = fst t\<rparr>"

definition range_records ::
  "'p::linorder Env \<Rightarrow> (index_t \<Rightarrow> index_t \<Rightarrow> bool) \<Rightarrow> ('p, 'b, 's) Node \<Rightarrow> 'p \<Rightarrow> nat
     \<Rightarrow> ('p, 'b, 's) Node \<Rightarrow> 'p NNResult list" where
  "range_records env AreTheSame this r dimension query_node =
     concat (map (\<lambda>i. map (\<lambda>s. NNResult_of (index query_node ! i)
                                  (entry env this (leaf_point query_node dimension i) dimension s))
                          (radius_slots env AreTheSame this (leaf_point query_node dimension i)
                             r dimension))
                 [0..<num_of_points query_node])"

fun first_fault :: "nat option list \<Rightarrow> nat \<Rightarrow> (nat \<times> nat) option" where
  "first_fault os 0 = None"
| "first_fault [] (Suc n) = None"
| "first_fault (None # os) (Suc n) = map_option (\<lambda>(p, e). (Suc p, e)) (first_fault os n)"
| "first_fault (Some errno # os) (Suc n) = Some (0, errno)"

definition write_record :: "(nat \<Rightarrow> string) \<Rightarrow> 'p FILE \<Rightarrow> 'p NNResult \<Rightarrow> (error \<times> 'p FILE) + 'p FILE" where
  "write_record strerror fp result =
     (case fwrite result fp of
        Inl (errno, fp') \<Rightarrow>
          Inl (FATAL (''Error while writing range nearest neighbors: '' @ strerror errno @ ''\<newline>''), fp')
      | Inr fp' \<Rightarrow> Inr fp')"

section \<open>Concrete inputs\<close>

text \<open>
  Four points of the plane, (0,0), (0,1), (1,0) and (5,5), with the ids 0, 2, 1 and 3,
  in the order in which the leaf stores them.
\<close>

definition plane_leaf :: "(int, unit, unit) Node" where
  "plane_leaf = leaf_of [0,0, 0,1, 1,0, 5,5] [0,2,1,3]"

definition strerror_linux :: "nat \<Rightarrow> string" where
  "strerror_linux errno = (if errno = 28 then ''No space left on device'' else ''Input/output error'')"

section \<open>A floating Precision_t\<close>

text \<open>
  A floating type has finite values and an infinity above them all;
  \<open>numeric_limits<double>::max()\<close> is the largest finite \<open>double\<close>. The metric is
  the squared Euclidean distance, infinite as soon as a coordinate is.
\<close>

datatype Precision_t = Finite real | Infinity

instantiation Precision_t :: linorder
begin

definition less_eq_Precision_t :: "Precision_t \<Rightarrow> Precision_t \<Rightarrow> bool" where
  "less_eq_Precision_t a b =
     (case b of Infinity \<Rightarrow> True
      | Finite y \<Rightarrow> (case a of Infinity \<Rightarrow> False | Finite x \<Rightarrow> x \<le> y))"

definition less_Precision_t :: "Precision_t \<Rightarrow> Precision_t \<Rightarrow> bool" where
  "less_Precision_t a b = (a \<le> b \<and> \<not> b \<le> (a::Precision_t))"

instance
proof
  fix x y z :: Precision_t
  show "(x < y) = (x \<le> y \<and> \<not> y \<le> x)" by (simp add: less_Precision_t_def)
  show "x \<le> x" by (simp add: less_eq_Precision_t_def split: Precision_t.splits)
  show "x \<le> y \<Longrightarrow> y \<le> z \<Longrightarrow> x \<le> z"
    by (auto simp: less_eq_Precision_t_def split: Precision_t.splits)
  show "x \<le> y \<Longrightarrow> y \<le> x \<Longrightarrow> x = y"
    by (auto simp: less_eq_Precision_t_def split: Precision_t.splits)
  show "x \<le> y \<or> y \<le> x"
    by (auto simp: less_eq_Precision_t_def split: Precision_t.splits)
qed

end

definition DBL_MAX :: real where
  "DBL_MAX = (2 ^ 53 - 1) * 2 ^ 971"

fun fp_plus :: "Precision_t \<Rightarrow> Precision_t \<Rightarrow> Precision_t" where
  "fp_plus (Finite a) (Finite b) = Finite (a + b)"
| "fp_plus a b = Infinity"

fun fp_square_diff :: "Precision_t \<Rightarrow> Precision_t \<Rightarrow> Precision_t" where
  "fp_square_diff (Finite a) (Finite b) = Finite ((a - b) * (a - b))"
| "fp_square_diff a b = Infinity"

definition fp_distance :: "Precision_t Point_t \<Rightarrow> Precision_t list \<Rightarrow> nat \<Rightarrow> Precision_t" where
  "fp_distance query_point ptr dimension =
     foldl fp_plus (Finite 0)
       (map (\<lambda>j. fp_square_diff (get_ptr query_point ! j) (ptr ! j)) [0..<dimension])"

definition double_env :: "Precision_t Env" where
  \<comment> \<open>\<open>Precision_t = double\<close>, with \<open>numeric_limits<double>::max()\<close>\<close>
  "double_env = \<lparr>Distance = fp_distance, PairComparator = by_distance,
                 std_sort = insertion_sort, numeric_limits_max = Finite DBL_MAX,
                 Point_default = \<lparr>get_ptr = [], get_id = 0\<rparr>\<rparr>"

definition double_leaf :: "(Precision_t, unit, unit) Node" where
  "double_leaf = Init_leaf (Node_new () () 0 0 (Finite DBL_MAX)) () () 7 0 1 2
       (\<lambda>i j. [Finite 3, Finite 4] ! (i * 2 + j)) (\<lambda>i. [5] ! i)"

section \<open>The k nearest neighbours, as the spec words them\<close>

text \<open>
  The brute-force answer of the spec: the non-excluded points of the leaf in ascending
  order of distance, equal distances in ascending order of id, cut after \<open>k\<close>.
\<close>

definition brute_force_knn ::
  "'p::linorder Env \<Rightarrow> (index_t \<Rightarrow> index_t \<Rightarrow> bool) \<Rightarrow> ('p, 'b, 's) Node \<Rightarrow> 'p Point_t \<Rightarrow> nat
     \<Rightarrow> nat \<Rightarrow> ('p \<times> 'p Point_t) list" where
  "brute_force_knn env AreTheSame node query_point k dimension =
     take k (sort_key (\<lambda>c. (fst c, get_id (snd c)))
               (brute_force env AreTheSame node query_point dimension [0..<num_of_points node]))"

section \<open>The neighbors buffer\<close>

text \<open>
  \<open>primed node knns m kn'\<close>: the buffer \<open>kn'\<close> is the node's buffer with the id of
  point \<open>i\<close> written into the cells of the first \<open>m\<close> points. \<open>with_buffer\<close> gives a
  node a buffer of \<open>n\<close> blank cells, as a caller provides it.
\<close>

definition primed :: "('p, 'b, 's) Node \<Rightarrow> nat \<Rightarrow> nat \<Rightarrow> 'p NNResult list \<Rightarrow> bool" where
  "primed node knns m kn' \<longleftrightarrow>
     length kn' = length (kneighbors node)
     \<and> (\<forall>c<length (kneighbors node).
           kn' ! c = (if c < m * knns
                      then (kneighbors node ! c)\<lparr>nn_point_id := index node ! (c div knns)\<rparr>
                      else kneighbors node ! c))"

definition blank_cell :: "index_t \<Rightarrow> int NNResult" where
  "blank_cell pid = \<lparr>nn_point_id = pid, nn_nearest = \<lparr>get_ptr = [], get_id = 77\<rparr>,
                     nn_distance = 2147483647\<rparr>"

definition with_buffer :: "(int, unit, unit) Node \<Rightarrow> nat \<Rightarrow> (int, unit, unit) Node" where
  "with_buffer node n = node\<lparr>kneighbors := replicate n (blank_cell 99)\<rparr>"

section \<open>The k nearest neighbours of a query node, as the spec words them\<close>

text \<open>
  \<open>seeds kn k i\<close> are the \<open>k\<close> candidates of point \<open>i\<close> that the buffer holds.
  \<open>knn_block\<close> is what \<open>FindNearest\<close> makes of them and of the leaf's non-excluded
  points. \<open>kth_distance\<close> is the \<open>k\<close>-th smallest distance among them all, and
  \<open>worst_kth\<close> the running maximum of the \<open>k\<close>-th distances over the points of the
  query node, started at 0 as \<open>max_local_distance\<close> is. \<open>merged ... m kn'\<close>: the
  buffer \<open>kn'\<close> is the query node's buffer with the blocks of the first \<open>m\<close> points
  stored in their cells.
\<close>

definition seeds :: "'p NNResult list \<Rightarrow> nat \<Rightarrow> index_t \<Rightarrow> ('p \<times> 'p Point_t) list" where
  "seeds kn k i = map (\<lambda>j. (nn_distance (kn ! (i * k + j)), nn_nearest (kn ! (i * k + j)))) [0..<k]"

definition knn_block ::
  "'p::linorder Env \<Rightarrow> (index_t \<Rightarrow> index_t \<Rightarrow> bool) \<Rightarrow> ('p, 'b, 's) Node \<Rightarrow> nat \<Rightarrow> nat
     \<Rightarrow> ('p, 'b, 's) Node \<Rightarrow> index_t \<Rightarrow> ('p \<times> 'p Point_t) list" where
  "knn_block env AreTheSame this k dimension query_node i =
     knn_trim env k
       (seeds (kneighbors query_node) k i
        @ brute_force env AreTheSame this (leaf_point query_node dimension i) dimension
            [0..<num_of_points this])"

definition kth_distance ::
  "'p::linorder Env \<Rightarrow> (index_t \<Rightarrow> index_t \<Rightarrow> bool) \<Rightarrow> ('p, 'b, 's) Node \<Rightarrow> nat \<Rightarrow> nat
     \<Rightarrow> ('p, 'b, 's) Node \<Rightarrow> index_t \<Rightarrow> 'p" where
  "kth_distance env AreTheSame this k dimension query_node i =
     sort (map fst (seeds (kneighbors query_node) k i
                    @ brute_force env AreTheSame this (leaf_point query_node dimension i) dimension
                        [0..<num_of_points this])) ! (k - 1)"

definition worst_kth ::
  "'p::{linorder,zero} Env \<Rightarrow> (index_t \<Rightarrow> index_t \<Rightarrow> bool) \<Rightarrow> ('p, 'b, 's) Node \<Rightarrow> nat \<Rightarrow> nat
     \<Rightarrow> ('p, 'b, 's) Node \<Rightarrow> 'p" where
  "worst_kth env AreTheSame this k dimension query_node =
     fold (\<lambda>i worst. max worst (kth_distance env AreTheSame this k dimension query_node i))
          [0..<num_of_points query_node] 0"

definition store :: "'p NNResult \<Rightarrow> ('p \<times> 'p Point_t) \<Rightarrow> 'p NNResult" where
  "store cell t = cell\<lparr>nn_distance := fst t, nn_nearest := snd t\<rparr>"

definition merged ::
  "'p::linorder Env \<Rightarrow> (index_t \<Rightarrow> index_t \<Rightarrow> bool) \<Rightarrow> ('p, 'b, 's) Node \<Rightarrow> nat \<Rightarrow> nat
     \<Rightarrow> ('p, 'b, 's) Node \<Rightarrow> nat \<Rightarrow> 'p NNResult list \<Rightarrow> bool" where
  "merged env AreTheSame this k dimension query_node m kn' \<longleftrightarrow>
     length kn' = length (kneighbors query_node)
     \<and> (\<forall>c<length (kneighbors query_node).
           kn' ! c = (if c < m * k
                      then store (kneighbors query_node ! c)
                             (knn_block env AreTheSame this k dimension query_node (c div k)
                                ! (c mod k))
                      else kneighbors query_node ! c))"

section \<open>More concrete inputs\<close>

text \<open>
  A leaf test for \<open>Print\<close>, a reference leaf with the points (1,0) and (3,0), ids 1
  and 2, and a query node with the one point (0,0), id 0, and a buffer of two blank
  cells.
\<close>

definition is_leaf :: "('p, 'b, 's) Node \<Rightarrow> bool" where
  "is_leaf node \<longleftrightarrow> left node = None \<and> right node = None"

definition two_point_leaf :: "(int, unit, unit) Node" where
  "two_point_leaf = leaf_of [1,0, 3,0] [1,2]"

definition one_point_query :: "(int, unit, unit) Node" where
  "one_point_query = (leaf_of [0,0] [0])\<lparr>kneighbors := [blank_cell 0, blank_cell 0]\<rparr>"

definition slot :: "index_t \<Rightarrow> int list \<Rightarrow> index_t \<Rightarrow> int \<Rightarrow> int NNResult" where
  "slot pid ptr nid d = \<lparr>nn_point_id = pid, nn_nearest = \<lparr>get_ptr = ptr, get_id = nid\<rparr>,
                         nn_distance = d\<rparr>"

text \<open>
  A reference leaf with the points (3,0) and (4,0), and the same query node with two
  neighbours, found in another leaf, in its buffer: the farther one first, and farther
  than the points of this leaf.
\<close>

definition far_leaf :: "(int, unit, unit) Node" where
  "far_leaf = leaf_of [3,0, 4,0] [1,2]"

definition unsorted_query :: "(int, unit, unit) Node" where
  "unsorted_query = (leaf_of [0,0] [0])\<lparr>kneighbors := [slot 0 [0,5] 6 25, slot 0 [0,1] 5 1]\<rparr>"

text \<open>The stream as \<open>FindAllNearest\<close> leaves it, whether the query returned or aborted.\<close>

definition stream_after :: "(error \<times> 'p FILE) + ('n \<times> 'p \<times> 'p FILE) \<Rightarrow> 'p FILE" where
  "stream_after res = (case res of Inl (e, fp') \<Rightarrow> fp' | Inr (query_node', bound', fp') \<Rightarrow> fp')"
section \<open>The scan of FindNearest\<close>

lemma brute_force_append:
  "brute_force env AreTheSame node query_point dimension (xs @ ys)
   = brute_force env AreTheSame node query_point dimension xs
     @ brute_force env AreTheSame node query_point dimension ys"
  by (simp add: brute_force_def)

lemma fold_err_append:
  "fold_err f (xs @ ys) s = (case fold_err f xs s of Inl e \<Rightarrow> Inl e | Inr s' \<Rightarrow> fold_err f ys s')"
  by (induction xs arbitrary: s) (auto split: sum.splits)

lemma slot_in_bounds:
  assumes "i < n" "n * d \<le> (m::nat)"
  shows "i * d + d \<le> m"
proof -
  have "Suc i * d \<le> n * d" using assms(1) by (intro mult_le_mono1) simp
  then show ?thesis using assms(2) by simp
qed

lemma scan_step_wf:
  assumes "leaf_wf node dimension" "i < num_of_points node"
  shows "scan_step env AreTheSame node query_point range0 dimension nearest i
         = Inr (nearest @ filter (admits range0) (brute_force env AreTheSame node query_point dimension [i]))"
proof -
  have a: "i < length (index node)" using assms by (simp add: leaf_wf_def)
  have b: "i * dimension + dimension \<le> length (points node)"
    using assms slot_in_bounds[of i "num_of_points node" dimension] by (simp add: leaf_wf_def)
  show ?thesis using a b
    by (cases range0) (simp_all add: scan_step_def brute_force_def admits_def leaf_point_def Let_def)
qed

lemma scan_prefix:
  assumes "leaf_wf node dimension" "m \<le> num_of_points node"
  shows "fold_err (scan_step env AreTheSame node query_point range0 dimension) [0..<m] nearest
         = Inr (nearest @ filter (admits range0) (brute_force env AreTheSame node query_point dimension [0..<m]))"
  using assms(2)
proof (induction m)
  case 0
  then show ?case by (simp add: brute_force_def)
next
  case (Suc m)
  from Suc show ?case
    by (simp add: fold_err_append scan_step_wf[OF assms(1)] brute_force_append)
qed

lemma trim_iterator_eq: "trim_iterator k = k"
proof -
  have "fold (\<lambda>j it. Suc it) xs n = n + length xs" for xs :: "nat list" and n
    by (induction xs arbitrary: n) auto
  then show ?thesis by (simp add: trim_iterator_def)
qed

lemma FindNearest_scan_wf:
  assumes "leaf_wf node dimension"
  shows "FindNearest_scan env AreTheSame node query_point range0 dimension nearest
         = Inr (nearest @ filter (admits range0)
                  (brute_force env AreTheSame node query_point dimension [0..<num_of_points node]))"
  unfolding FindNearest_scan_def using scan_prefix[OF assms order_refl] .

lemma admits_Knn: "filter (admits (Knn k)) xs = xs"
  by (simp add: admits_def)

lemma admits_Radius: "filter (admits (Radius r)) xs = filter (\<lambda>c. fst c \<le> r) xs"
  by (rule filter_cong) (simp_all add: admits_def)

lemma FindNearest_Knn_wf:
  assumes "leaf_wf node dimension"
  shows "FindNearest env AreTheSame node query_point nearest (Knn k) dimension
         = Inr (knn_trim env k (nearest @
                  brute_force env AreTheSame node query_point dimension [0..<num_of_points node]))"
  by (simp add: FindNearest_def FindNearest_scan_wf[OF assms] admits_Knn knn_trim_def
      trim_iterator_eq Let_def)

lemma FindNearest_Radius_wf:
  assumes "leaf_wf node dimension"
  shows "FindNearest env AreTheSame node query_point nearest (Radius r) dimension
         = Inr (nearest @ filter (\<lambda>c. fst c \<le> r)
                  (brute_force env AreTheSame node query_point dimension [0..<num_of_points node]))"
  by (simp add: FindNearest_def FindNearest_scan_wf[OF assms] admits_Radius)

lemma conforms_mset: "sort_conforms cmp srt \<Longrightarrow> mset (srt cmp xs) = mset xs"
  by (simp add: sort_conforms_def)

lemma conforms_length: "sort_conforms cmp srt \<Longrightarrow> length (srt cmp xs) = length xs"
  using conforms_mset[of cmp srt xs] by (metis size_mset)

lemma conforms_set: "sort_conforms cmp srt \<Longrightarrow> set (srt cmp xs) = set xs"
  using conforms_mset[of cmp srt xs] by (metis set_mset_mset)

lemma conforms_sorted_fst:
  assumes "sort_conforms cmp srt" "orders_by_distance cmp"
  shows "sorted (map fst (srt cmp xs))"
proof -
  have "sorted_wrt (\<lambda>a b. \<not> cmp b a) (srt cmp xs)"
    using assms(1) by (simp add: sort_conforms_def)
  moreover have "\<not> cmp b a \<Longrightarrow> fst a \<le> fst b" for a b
    using assms(2) unfolding orders_by_distance_def by (meson not_less)
  ultimately have "sorted_wrt (\<lambda>a b. fst a \<le> fst b) (srt cmp xs)"
    by (rule sorted_wrt_mono_rel[rotated]) simp
  then show ?thesis by (simp add: sorted_map)
qed

lemma conforms_distances:
  assumes "sort_conforms cmp srt" "orders_by_distance cmp"
  shows "map fst (srt cmp xs) = sort (map fst xs)"
proof -
  have "mset (map fst (srt cmp xs)) = mset (map fst xs)"
    using conforms_mset[OF assms(1), of xs] by (metis mset_map)
  then show ?thesis
    using conforms_sorted_fst[OF assms, of xs] by (metis properties_for_sort)
qed

lemma knn_trim_length:
  assumes "env_ok env"
  shows "length (knn_trim env k xs) = k"
proof -
  have "length (std_sort env (PairComparator env) xs) = length xs"
    using assms by (simp add: env_ok_def conforms_length)
  then show ?thesis by (simp add: knn_trim_def Let_def)
qed

lemma knn_trim_distances:
  assumes "env_ok env"
  shows "map fst (knn_trim env k xs)
         = take k (sort (map fst xs)) @ replicate (k - length xs) (numeric_limits_max env)"
proof -
  have l: "length (std_sort env (PairComparator env) xs) = length xs"
    using assms by (simp add: env_ok_def conforms_length)
  have d: "map fst (std_sort env (PairComparator env) xs) = sort (map fst xs)"
    using assms by (simp add: env_ok_def conforms_distances)
  show ?thesis
    by (simp add: knn_trim_def Let_def l take_map[symmetric] d)
qed

section \<open>The instance conforms\<close>

lemma mset_insert_sorted: "mset (insert_sorted cmp x xs) = add_mset x (mset xs)"
  by (induction xs) auto

lemma mset_insertion_sort: "mset (insertion_sort cmp xs) = mset xs"
proof -
  have "mset (foldl (\<lambda>sorted x. insert_sorted cmp x sorted) acc xs) = mset acc + mset xs" for acc
    by (induction xs arbitrary: acc) (auto simp: mset_insert_sorted)
  then show ?thesis by (simp add: insertion_sort_def)
qed

lemma set_insert_sorted: "set (insert_sorted cmp x xs) = insert x (set xs)"
  by (induction xs) auto

lemma sorted_insert_sorted:
  "sorted_wrt (\<lambda>a b. fst a \<le> fst b) xs
   \<Longrightarrow> sorted_wrt (\<lambda>a b. fst a \<le> fst b) (insert_sorted by_distance x xs)"
  by (induction xs) (auto simp: by_distance_def set_insert_sorted)

lemma sorted_insertion_sort:
  "sorted_wrt (\<lambda>a b. fst a \<le> fst b) (insertion_sort by_distance xs)"
proof -
  have "sorted_wrt (\<lambda>a b. fst a \<le> fst b) acc
        \<Longrightarrow> sorted_wrt (\<lambda>a b. fst a \<le> fst b)
              (foldl (\<lambda>sorted x. insert_sorted by_distance x sorted) acc xs)"
    for acc :: "('a \<times> 'b) list"
    by (induction xs arbitrary: acc) (auto simp: sorted_insert_sorted)
  then show ?thesis by (simp add: insertion_sort_def)
qed

lemma insertion_sort_conforms: "sort_conforms by_distance insertion_sort"
proof -
  have "(\<lambda>a b. \<not> by_distance b a) = (\<lambda>a b :: 'a \<times> 'b. fst a \<le> fst b)"
    by (auto simp: by_distance_def fun_eq_iff)
  then show ?thesis
    by (simp add: sort_conforms_def mset_insertion_sort sorted_insertion_sort)
qed

lemma by_distance_orders: "orders_by_distance by_distance"
  by (auto simp: orders_by_distance_def by_distance_def)

lemma int_env_ok: "env_ok int_env"
  by (simp add: env_ok_def int_env_def insertion_sort_conforms by_distance_orders)

lemma leaf_of_wf: "length ps = 2 * length ids \<Longrightarrow> leaf_wf (leaf_of ps ids) 2"
  by (simp add: leaf_wf_def leaf_of_def Init_leaf_def Node_new_def length_concat comp_def
      sum_list_triv)

section \<open>Range search\<close>

lemma brute_force_entries:
  "brute_force env AreTheSame node query_point dimension is
   = map (entry env node query_point dimension)
         (filter (\<lambda>i. \<not> AreTheSame (index node ! i) (get_id query_point)) is)"
  by (simp add: brute_force_def entry_def)

lemma brute_force_within:
  "filter (\<lambda>c. fst c \<le> r)
     (brute_force env AreTheSame node query_point dimension [0..<num_of_points node])
   = map (entry env node query_point dimension)
         (radius_slots env AreTheSame node query_point r dimension)"
  by (simp add: brute_force_entries radius_slots_def filter_map comp_def conj_commute)

lemma fold_err_map: "fold_err f (map g xs) s = fold_err (\<lambda>s x. f s (g x)) xs s"
  by (induction xs arbitrary: s) (auto split: sum.splits)

lemma fold_err_concat:
  "fold_err f (concat xss) s = fold_err (\<lambda>s xs. fold_err f xs s) xss s"
  by (induction xss arbitrary: s) (auto simp: fold_err_append split: sum.splits)

lemma fold_err_cong:
  "(\<And>s x. x \<in> set xs \<Longrightarrow> f s x = g s x) \<Longrightarrow> fold_err f xs s = fold_err g xs s"
  by (induction xs arbitrary: s) (auto split: sum.splits)

lemma write_result_record:
  "write_result strerror qid fp t = write_record strerror fp (NNResult_of qid t)"
  by (simp add: write_result_def write_record_def NNResult_of_def)

lemma range_step_wf:
  assumes "leaf_wf this dimension" "leaf_wf query_node dimension" "i < num_of_points query_node"
  shows "range_step env strerror AreTheSame this r dimension query_node fp i
         = fold_err (write_record strerror)
             (map (\<lambda>s. NNResult_of (index query_node ! i)
                         (entry env this (leaf_point query_node dimension i) dimension s))
                  (radius_slots env AreTheSame this (leaf_point query_node dimension i) r dimension))
             fp"
proof -
  have a: "i < length (index query_node)" using assms by (simp add: leaf_wf_def)
  have b: "i * dimension + dimension \<le> length (points query_node)"
    using assms slot_in_bounds[of i "num_of_points query_node" dimension]
    by (simp add: leaf_wf_def)
  have p: "\<lparr>get_ptr = take dimension (drop (i * dimension) (points query_node)),
            get_id = index query_node ! i\<rparr> = leaf_point query_node dimension i"
    by (simp add: leaf_point_def)
  show ?thesis
    using a b
    by (simp add: range_step_def Let_def p FindNearest_Radius_wf[OF assms(1)]
        brute_force_within fold_err_map write_result_record)
qed

lemma range_loop_wf:
  assumes "leaf_wf this dimension" "leaf_wf query_node dimension"
  shows "fold_err (range_step env strerror AreTheSame this r dimension query_node)
           [0..<num_of_points query_node] fp
         = fold_err (write_record strerror)
             (range_records env AreTheSame this r dimension query_node) fp"
proof -
  have "fold_err (range_step env strerror AreTheSame this r dimension query_node)
           [0..<num_of_points query_node] fp
        = fold_err (\<lambda>fp i. fold_err (write_record strerror)
             (map (\<lambda>s. NNResult_of (index query_node ! i)
                         (entry env this (leaf_point query_node dimension i) dimension s))
                  (radius_slots env AreTheSame this (leaf_point query_node dimension i) r dimension))
             fp) [0..<num_of_points query_node] fp"
    by (rule fold_err_cong) (simp add: range_step_wf[OF assms])
  then show ?thesis
    by (simp add: range_records_def fold_err_concat fold_err_map)
qed

lemma first_fault_Nil: "first_fault [] n = None"
  by (cases n) simp_all

lemma write_all:
  "fold_err (write_record strerror) recs fp
   = (case first_fault (outcomes fp) (length recs) of
        None \<Rightarrow> Inr (fp\<lparr>written := written fp @ recs,
                         outcomes := drop (length recs) (outcomes fp)\<rparr>)
      | Some (n, errno) \<Rightarrow>
          Inl (FATAL (''Error while writing range nearest neighbors: '' @ strerror errno @ ''\<newline>''),
               fp\<lparr>written := written fp @ take n recs,
                   outcomes := drop (Suc n) (outcomes fp)\<rparr>))"
proof (induction recs arbitrary: fp)
  case Nil
  then show ?case by simp
next
  case (Cons a recs)
  have step: "write_record strerror fp a
     = (case outcomes fp of
          [] \<Rightarrow> Inr (fp\<lparr>written := written fp @ [a]\<rparr>)
        | None # rest \<Rightarrow> Inr (fp\<lparr>written := written fp @ [a], outcomes := rest\<rparr>)
        | Some errno # rest \<Rightarrow>
            Inl (FATAL (''Error while writing range nearest neighbors: '' @ strerror errno @ ''\<newline>''),
                 fp\<lparr>outcomes := rest\<rparr>))"
    by (simp add: write_record_def fwrite_def split: list.splits option.splits)
  show ?case
  proof (cases "outcomes fp")
    case Nil
    then show ?thesis
      by (simp add: step Cons.IH first_fault_Nil)
  next
    case (Cons o1 os)
    then show ?thesis
      by (cases o1) (simp_all add: step Cons.IH split: option.splits)
  qed
qed

lemma FindAllNearest_Radius_wf:
  assumes "leaf_wf this dimension" and "leaf_wf query_node dimension"
  shows "FindAllNearest env strerror AreTheSame this query_node bound (Radius r) dimension fp
         = (case first_fault (outcomes fp)
                  (length (range_records env AreTheSame this r dimension query_node)) of
              None \<Rightarrow>
                Inr (query_node, r,
                     fp\<lparr>written := written fp
                           @ range_records env AreTheSame this r dimension query_node,
                         outcomes := drop (length (range_records env AreTheSame this r
                                                      dimension query_node))
                                          (outcomes fp)\<rparr>)
            | Some (n, errno) \<Rightarrow>
                Inl (FATAL (''Error while writing range nearest neighbors: '' @ strerror errno @ ''\<newline>''),
                     fp\<lparr>written := written fp
                           @ take n (range_records env AreTheSame this r dimension query_node),
                         outcomes := drop (Suc n) (outcomes fp)\<rparr>))"
  by (simp add: FindAllNearest_def range_loop_wf[OF assms] write_all split: option.splits)

text \<open>
  C3. Range search is exact. On a well-formed leaf, \<open>FindNearest\<close> with a radius
  appends to the candidate list the entries of exactly the slots whose point is not
  excluded by the discriminator and whose distance to the query point is at most the
  radius: each such slot once (the slots are distinct), and no other slot. With a
  stream that accepts every write, \<open>FindAllNearest\<close> with a radius appends to the
  stream the records of exactly those slots, for each point of the query node in turn.
\<close>

theorem range_search_exact:
  assumes "leaf_wf this dimension" and "leaf_wf query_node dimension"
  shows "FindNearest env AreTheSame this query_point nearest (Radius r) dimension
           = Inr (nearest @ map (entry env this query_point dimension)
                                (radius_slots env AreTheSame this query_point r dimension))
         \<and> distinct (radius_slots env AreTheSame this query_point r dimension)
         \<and> set (radius_slots env AreTheSame this query_point r dimension)
             = {i. i < num_of_points this
                   \<and> \<not> AreTheSame (index this ! i) (get_id query_point)
                   \<and> Distance env query_point (get_ptr (leaf_point this dimension i)) dimension \<le> r}
         \<and> (outcomes fp = [] \<longrightarrow>
              FindAllNearest env strerror AreTheSame this query_node bound (Radius r) dimension fp
              = Inr (query_node, r,
                     fp\<lparr>written := written fp
                          @ range_records env AreTheSame this r dimension query_node\<rparr>))"
proof -
  have 1: "FindNearest env AreTheSame this query_point nearest (Radius r) dimension
           = Inr (nearest @ map (entry env this query_point dimension)
                                (radius_slots env AreTheSame this query_point r dimension))"
    by (simp add: FindNearest_Radius_wf[OF assms(1)] brute_force_within)
  have 2: "distinct (radius_slots env AreTheSame this query_point r dimension)"
    by (simp add: radius_slots_def)
  have 3: "set (radius_slots env AreTheSame this query_point r dimension)
             = {i. i < num_of_points this
                   \<and> \<not> AreTheSame (index this ! i) (get_id query_point)
                   \<and> Distance env query_point (get_ptr (leaf_point this dimension i)) dimension \<le> r}"
    by (auto simp: radius_slots_def entry_def)
  have 4: "FindAllNearest env strerror AreTheSame this query_node bound (Radius r) dimension fp
              = Inr (query_node, r,
                     fp\<lparr>written := written fp
                          @ range_records env AreTheSame this r dimension query_node\<rparr>)"
    if "outcomes fp = []"
    using that
    by (simp add: FindAllNearest_def range_loop_wf[OF assms] write_all first_fault_Nil)
  show ?thesis using 1 2 3 4 by blast
qed

theorem range_search_exact_witness:
  "leaf_wf plane_leaf 2
   \<and> FindNearest int_env same_id plane_leaf \<lparr>get_ptr = [0,0], get_id = 0\<rparr> [] (Radius 1) 2
       = Inr [(1, \<lparr>get_ptr = [0,1], get_id = 2\<rparr>), (1, \<lparr>get_ptr = [1,0], get_id = 1\<rparr>)]
   \<and> FindAllNearest int_env (\<lambda>e. ''?'') same_id plane_leaf plane_leaf 9 (Radius 1) 2
         \<lparr>written = [], outcomes = []\<rparr>
       = Inr (plane_leaf, 1,
              \<lparr>written = [\<lparr>nn_point_id = 0, nn_nearest = \<lparr>get_ptr = [0,1], get_id = 2\<rparr>, nn_distance = 1\<rparr>,
                          \<lparr>nn_point_id = 0, nn_nearest = \<lparr>get_ptr = [1,0], get_id = 1\<rparr>, nn_distance = 1\<rparr>,
                          \<lparr>nn_point_id = 2, nn_nearest = \<lparr>get_ptr = [0,0], get_id = 0\<rparr>, nn_distance = 1\<rparr>,
                          \<lparr>nn_point_id = 1, nn_nearest = \<lparr>get_ptr = [0,0], get_id = 0\<rparr>, nn_distance = 1\<rparr>],
                outcomes = []\<rparr>)"
proof -
  have wf: "leaf_wf plane_leaf 2"
    by (simp add: plane_leaf_def leaf_of_wf)
  have e1: "map (entry int_env plane_leaf \<lparr>get_ptr = [0,0], get_id = 0\<rparr> 2)
              (radius_slots int_env same_id plane_leaf \<lparr>get_ptr = [0,0], get_id = 0\<rparr> 1 2)
            = [(1, \<lparr>get_ptr = [0,1], get_id = 2\<rparr>), (1, \<lparr>get_ptr = [1,0], get_id = 1\<rparr>)]"
    by code_simp
  have e2: "range_records int_env same_id plane_leaf 1 2 plane_leaf
            = [\<lparr>nn_point_id = 0, nn_nearest = \<lparr>get_ptr = [0,1], get_id = 2\<rparr>, nn_distance = 1\<rparr>,
               \<lparr>nn_point_id = 0, nn_nearest = \<lparr>get_ptr = [1,0], get_id = 1\<rparr>, nn_distance = 1\<rparr>,
               \<lparr>nn_point_id = 2, nn_nearest = \<lparr>get_ptr = [0,0], get_id = 0\<rparr>, nn_distance = 1\<rparr>,
               \<lparr>nn_point_id = 1, nn_nearest = \<lparr>get_ptr = [0,0], get_id = 0\<rparr>, nn_distance = 1\<rparr>]"
    by code_simp
  show ?thesis
    using range_search_exact[OF wf wf, of int_env same_id "\<lparr>get_ptr = [0,0], get_id = 0\<rparr>" "[]" 1
             "\<lparr>written = [], outcomes = []\<rparr>" "\<lambda>e. ''?''" 9] wf e1 e2
    by simp
qed

text \<open>
  C8. In range mode \<open>FindAllNearest\<close> writes one record, with the query point's id,
  the neighbour and the distance, for every qualifying neighbour of every query point,
  in order. If a call of \<open>fwrite\<close> fails, the query ends there with the fatal error
  whose message carries \<open>strerror(errno)\<close>: the records before the failed one are in
  the stream, none after it, and the failed call is the last call of \<open>fwrite\<close> that
  the query makes (the stream's list of coming outcomes is consumed up to and including
  the failure, so nothing is retried).
\<close>

theorem range_write_failure_aborts:
  assumes "leaf_wf this dimension" and "leaf_wf query_node dimension"
  shows "FindAllNearest env strerror AreTheSame this query_node bound (Radius r) dimension fp
         = (let recs = range_records env AreTheSame this r dimension query_node
            in case first_fault (outcomes fp) (length recs) of
                 None \<Rightarrow>
                   Inr (query_node, r,
                        fp\<lparr>written := written fp @ recs,
                            outcomes := drop (length recs) (outcomes fp)\<rparr>)
               | Some (n, errno) \<Rightarrow>
                   Inl (FATAL (''Error while writing range nearest neighbors: '' @ strerror errno @ ''\<newline>''),
                        fp\<lparr>written := written fp @ take n recs,
                            outcomes := drop (Suc n) (outcomes fp)\<rparr>))"
  by (simp add: FindAllNearest_def range_loop_wf[OF assms] write_all Let_def
      split: option.splits)

theorem range_write_failure_aborts_witness:
  "leaf_wf plane_leaf 2
   \<and> FindAllNearest int_env strerror_linux same_id plane_leaf plane_leaf 9 (Radius 1) 2
         \<lparr>written = [], outcomes = [None, None, Some 28, None]\<rparr>
       = Inl (Fatal ''Error while writing range nearest neighbors: No space left on device\<newline>'',
              \<lparr>written = [\<lparr>nn_point_id = 0, nn_nearest = \<lparr>get_ptr = [0,1], get_id = 2\<rparr>, nn_distance = 1\<rparr>,
                          \<lparr>nn_point_id = 0, nn_nearest = \<lparr>get_ptr = [1,0], get_id = 1\<rparr>, nn_distance = 1\<rparr>],
                outcomes = [None]\<rparr>)
   \<and> FindAllNearest int_env strerror_linux same_id plane_leaf plane_leaf 9 (Radius 1) 2
         \<lparr>written = [], outcomes = [None, None, None]\<rparr>
       = Inr (plane_leaf, 1,
              \<lparr>written = [\<lparr>nn_point_id = 0, nn_nearest = \<lparr>get_ptr = [0,1], get_id = 2\<rparr>, nn_distance = 1\<rparr>,
                          \<lparr>nn_point_id = 0, nn_nearest = \<lparr>get_ptr = [1,0], get_id = 1\<rparr>, nn_distance = 1\<rparr>,
                          \<lparr>nn_point_id = 2, nn_nearest = \<lparr>get_ptr = [0,0], get_id = 0\<rparr>, nn_distance = 1\<rparr>,
                          \<lparr>nn_point_id = 1, nn_nearest = \<lparr>get_ptr = [0,0], get_id = 0\<rparr>, nn_distance = 1\<rparr>],
                outcomes = []\<rparr>)"
proof -
  have wf: "leaf_wf plane_leaf 2"
    by (simp add: plane_leaf_def leaf_of_wf)
  have e: "range_records int_env same_id plane_leaf 1 2 plane_leaf
            = [\<lparr>nn_point_id = 0, nn_nearest = \<lparr>get_ptr = [0,1], get_id = 2\<rparr>, nn_distance = 1\<rparr>,
               \<lparr>nn_point_id = 0, nn_nearest = \<lparr>get_ptr = [1,0], get_id = 1\<rparr>, nn_distance = 1\<rparr>,
               \<lparr>nn_point_id = 2, nn_nearest = \<lparr>get_ptr = [0,0], get_id = 0\<rparr>, nn_distance = 1\<rparr>,
               \<lparr>nn_point_id = 1, nn_nearest = \<lparr>get_ptr = [0,0], get_id = 0\<rparr>, nn_distance = 1\<rparr>]"
    by code_simp
  have f1: "first_fault [None, None, Some 28, None] 4 = Some (2, 28)" by code_simp
  have f2: "first_fault [None, None, None] 4 = None" by code_simp
  have s: "strerror_linux 28 = ''No space left on device''" by (simp add: strerror_linux_def)
  show ?thesis
    using range_write_failure_aborts[OF wf wf, of int_env strerror_linux same_id 9 1
             "\<lparr>written = [], outcomes = [None, None, Some 28, None]\<rparr>"]
          range_write_failure_aborts[OF wf wf, of int_env strerror_linux same_id 9 1
             "\<lparr>written = [], outcomes = [None, None, None]\<rparr>"]
          wf
    by (simp add: e f1 f2 s FATAL_def Let_def)
qed

section \<open>The trim step of FindNearest\<close>

text \<open>
  C10 does not hold of the code. The trim boundary is claimed to stay within the
  candidate list also when the list holds fewer than \<open>k\<close> candidates; but the loop
  that advances the iterator runs \<open>k\<close> times before the size of the list is tested.
  With an empty candidate list, the four-point leaf and the query point with id 0,
  three candidates are in the list when the iterator has been advanced five positions,
  two past the end; advanced under the rule that an iterator at the end is not
  incremented, the loop fails.
\<close>

theorem trim_iterator_past_end:
  "FindNearest_scan int_env same_id plane_leaf \<lparr>get_ptr = [0,0], get_id = 0\<rparr> (Knn 5) 2 []
     = Inr [(1, \<lparr>get_ptr = [0,1], get_id = 2\<rparr>), (1, \<lparr>get_ptr = [1,0], get_id = 1\<rparr>),
            (50, \<lparr>get_ptr = [5,5], get_id = 3\<rparr>)]
   \<and> length [(1::int, \<lparr>get_ptr = [0,1::int], get_id = 2\<rparr>), (1, \<lparr>get_ptr = [1,0], get_id = 1\<rparr>),
              (50, \<lparr>get_ptr = [5,5], get_id = 3\<rparr>)] < trim_iterator 5
   \<and> trim_iterator_checked 3 5 = Inl OutOfBounds"
  by code_simp

section \<open>Trimming to k candidates\<close>

lemma knn_trim_kept:
  assumes "env_ok env"
  shows "\<exists>rest. mset (take (length xs) (knn_trim env k xs)) + mset rest = mset xs
           \<and> (\<forall>a\<in>set (take (length xs) (knn_trim env k xs)). \<forall>b\<in>set rest. fst a \<le> fst b)"
proof -
  let ?s = "std_sort env (PairComparator env) xs"
  have c: "sort_conforms (PairComparator env) (std_sort env)"
    and o: "orders_by_distance (PairComparator env)"
    using assms by (simp_all add: env_ok_def)
  have l: "length ?s = length xs" by (rule conforms_length[OF c])
  have t: "take (length xs) (knn_trim env k xs) = take k ?s"
    using l by (simp add: knn_trim_def Let_def min_def)
  have m: "mset (take k ?s) + mset (drop k ?s) = mset xs"
    using conforms_mset[OF c, of xs] by (metis append_take_drop_id mset_append)
  have "sorted (map fst (take k ?s @ drop k ?s))"
    using conforms_sorted_fst[OF c o, of xs] by simp
  then have "\<forall>a\<in>set (take k ?s). \<forall>b\<in>set (drop k ?s). fst a \<le> fst b"
    unfolding map_append sorted_append by auto
  with m t show ?thesis by auto
qed

lemma knn_trim_padding:
  assumes "env_ok env"
  shows "drop (length xs) (knn_trim env k xs)
         = replicate (k - length xs) (numeric_limits_max env, Point_default env)"
proof -
  have l: "length (std_sort env (PairComparator env) xs) = length xs"
    using assms by (simp add: env_ok_def conforms_length)
  show ?thesis using l by (simp add: knn_trim_def Let_def)
qed

lemma knn_trim_subset:
  assumes "env_ok env"
  shows "set (knn_trim env k xs) \<subseteq> insert (numeric_limits_max env, Point_default env) (set xs)"
proof -
  have s: "set (std_sort env (PairComparator env) xs) = set xs"
    using assms by (simp add: env_ok_def conforms_set)
  have "set (take k (std_sort env (PairComparator env) xs)) \<subseteq> set xs"
    using set_take_subset[of k "std_sort env (PairComparator env) xs"] s by simp
  then show ?thesis
    by (auto simp: knn_trim_def Let_def s)
qed

lemma knn_trim_subset_full:
  assumes "env_ok env" "k \<le> length xs"
  shows "set (knn_trim env k xs) \<subseteq> set xs"
proof -
  have s: "set (std_sort env (PairComparator env) xs) = set xs"
    and l: "length (std_sort env (PairComparator env) xs) = length xs"
    using assms(1) by (simp_all add: env_ok_def conforms_set conforms_length)
  have "set (take k (std_sort env (PairComparator env) xs)) \<subseteq> set xs"
    using set_take_subset[of k "std_sort env (PairComparator env) xs"] s by simp
  then show ?thesis
    using assms(2) l by (auto simp: knn_trim_def Let_def s)
qed

text \<open>
  C2, as stated, fails in the value of the sentinel: the padding entries carry
  \<open>numeric_limits<Precision_t>::max()\<close>, the largest finite value, not infinity. With
  \<open>double\<close> distances, one point in the leaf and \<open>k = 2\<close>, the second entry of the
  result has the distance \<open>DBL_MAX\<close>, which lies below infinity.
\<close>

theorem sentinel_counterexample:
  "FindNearest double_env same_id double_leaf \<lparr>get_ptr = [Finite 0, Finite 0], get_id = 9\<rparr> []
       (Knn 2) 2
     = Inr [(Finite 25, \<lparr>get_ptr = [Finite 3, Finite 4], get_id = 5\<rparr>),
            (Finite DBL_MAX, \<lparr>get_ptr = [], get_id = 0\<rparr>)]
   \<and> Finite DBL_MAX \<noteq> Infinity
   \<and> Finite DBL_MAX < Infinity"
  by code_simp

text \<open>
  C2, amended. With a conforming sort and a comparator that orders by distance, on a
  well-formed leaf, \<open>FindNearest\<close> for \<open>k\<close> neighbours returns a list of length
  exactly \<open>k\<close>. Its distances are the \<open>k\<close> smallest distances of the candidates (the
  given list followed by the leaf's non-excluded points) in ascending order, followed,
  when there are fewer than \<open>k\<close> candidates, by \<open>numeric_limits<Precision_t>::max()\<close>
  for each missing one. The entries kept are candidates, and every discarded candidate
  is at least as far as every kept one. The padding entries are the pair of
  \<open>numeric_limits<Precision_t>::max()\<close> and the default-constructed point.
\<close>

theorem knn_trim_exactly_k:
  assumes "env_ok env" and "leaf_wf node dimension"
    and "candidates = nearest @ brute_force env AreTheSame node query_point dimension
                                   [0..<num_of_points node]"
  shows "\<exists>result. FindNearest env AreTheSame node query_point nearest (Knn k) dimension = Inr result
           \<and> length result = k
           \<and> map fst result = take k (sort (map fst candidates))
                               @ replicate (k - length candidates) (numeric_limits_max env)
           \<and> (\<exists>discarded.
                 mset (take (length candidates) result) + mset discarded = mset candidates
                 \<and> (\<forall>a\<in>set (take (length candidates) result). \<forall>b\<in>set discarded. fst a \<le> fst b))
           \<and> drop (length candidates) result
               = replicate (k - length candidates) (numeric_limits_max env, Point_default env)"
  using FindNearest_Knn_wf[OF assms(2), of env AreTheSame query_point nearest k]
        knn_trim_length[OF assms(1), of k candidates]
        knn_trim_distances[OF assms(1), of k candidates]
        knn_trim_kept[OF assms(1), of candidates k]
        knn_trim_padding[OF assms(1), of candidates k]
  unfolding assms(3) by simp

theorem knn_trim_exactly_k_witness:
  "env_ok int_env \<and> leaf_wf plane_leaf 2
   \<and> (\<exists>result. FindNearest int_env same_id plane_leaf \<lparr>get_ptr = [0,0], get_id = 0\<rparr>
                    [(4, \<lparr>get_ptr = [2,0], get_id = 8\<rparr>)] (Knn 3) 2 = Inr result
         \<and> length result = 3 \<and> map fst result = [1, 1, 4])
   \<and> (\<exists>result. FindNearest int_env same_id plane_leaf \<lparr>get_ptr = [0,0], get_id = 0\<rparr>
                    [] (Knn 5) 2 = Inr result
         \<and> map fst result = [1, 1, 50, 2147483647, 2147483647]
         \<and> drop 3 result = [(2147483647, \<lparr>get_ptr = [], get_id = 0\<rparr>),
                             (2147483647, \<lparr>get_ptr = [], get_id = 0\<rparr>)])"
proof -
  have wf: "leaf_wf plane_leaf 2"
    by (simp add: plane_leaf_def leaf_of_wf)
  have e1: "take 3 (sort (map fst ([(4, \<lparr>get_ptr = [2,0], get_id = 8\<rparr>)]
               @ brute_force int_env same_id plane_leaf \<lparr>get_ptr = [0,0], get_id = 0\<rparr> 2
                   [0..<num_of_points plane_leaf]))) = [1, 1, 4]"
    by code_simp
  have e2: "take 5 (sort (map fst ([]
               @ brute_force int_env same_id plane_leaf \<lparr>get_ptr = [0,0], get_id = 0\<rparr> 2
                   [0..<num_of_points plane_leaf]))) = [1, 1, 50]"
    by code_simp
  have l1: "length ([(4::int, \<lparr>get_ptr = [2,0::int], get_id = 8\<rparr>)]
               @ brute_force int_env same_id plane_leaf \<lparr>get_ptr = [0,0], get_id = 0\<rparr> 2
                   [0..<num_of_points plane_leaf]) = 4"
    by code_simp
  have l2: "length ([]
               @ brute_force int_env same_id plane_leaf \<lparr>get_ptr = [0,0], get_id = 0\<rparr> 2
                   [0..<num_of_points plane_leaf]) = 3"
    by code_simp
  have m: "numeric_limits_max int_env = 2147483647"
          "Point_default int_env = \<lparr>get_ptr = [], get_id = 0\<rparr>"
    by (simp_all add: int_env_def)
  have r2: "replicate 2 x = [x, x]" for x :: "int \<times> int Point_t"
    by (simp add: numeral_2_eq_2)
  have r2': "replicate 2 x = [x, x]" for x :: int
    by (simp add: numeral_2_eq_2)
  note a = knn_trim_exactly_k[OF int_env_ok wf refl, of same_id "\<lparr>get_ptr = [0,0], get_id = 0\<rparr>"
             "[(4, \<lparr>get_ptr = [2,0], get_id = 8\<rparr>)]" 3, unfolded e1 l1]
  note b = knn_trim_exactly_k[OF int_env_ok wf refl, of same_id "\<lparr>get_ptr = [0,0], get_id = 0\<rparr>"
             "[]" 5, unfolded e2 l2]
  have A: "\<exists>result. FindNearest int_env same_id plane_leaf \<lparr>get_ptr = [0,0], get_id = 0\<rparr>
                    [(4, \<lparr>get_ptr = [2,0], get_id = 8\<rparr>)] (Knn 3) 2 = Inr result
         \<and> length result = 3 \<and> map fst result = [1, 1, 4]"
    using a by auto
  have B: "\<exists>result. FindNearest int_env same_id plane_leaf \<lparr>get_ptr = [0,0], get_id = 0\<rparr>
                    [] (Knn 5) 2 = Inr result
         \<and> map fst result = [1, 1, 50, 2147483647, 2147483647]
         \<and> drop 3 result = [(2147483647, \<lparr>get_ptr = [], get_id = 0\<rparr>),
                             (2147483647, \<lparr>get_ptr = [], get_id = 0\<rparr>)]"
    using b by (auto simp: m r2 r2')
  show ?thesis using int_env_ok wf A B by blast
qed

section \<open>The k nearest neighbours of one query point\<close>

lemma by_distance_then_id_key: "by_distance_then_id a b \<longleftrightarrow> distance_id a < distance_id b"
  by (auto simp: by_distance_then_id_def distance_id_def less_prod_def less_eq_prod_def)

lemma sorted_insert_sorted_gen:
  fixes f :: "'a \<Rightarrow> 'k::linorder"
  assumes "\<And>a b. cmp a b \<longleftrightarrow> f a < f b"
  shows "sorted_wrt (\<lambda>a b. f a \<le> f b) xs \<Longrightarrow> sorted_wrt (\<lambda>a b. f a \<le> f b) (insert_sorted cmp x xs)"
  by (induction xs) (auto simp: assms set_insert_sorted)

lemma sorted_insertion_sort_gen:
  fixes f :: "'a \<Rightarrow> 'k::linorder"
  assumes "\<And>a b. cmp a b \<longleftrightarrow> f a < f b"
  shows "sorted_wrt (\<lambda>a b. f a \<le> f b) (insertion_sort cmp xs)"
proof -
  have "sorted_wrt (\<lambda>a b. f a \<le> f b) acc
        \<Longrightarrow> sorted_wrt (\<lambda>a b. f a \<le> f b) (foldl (\<lambda>sorted x. insert_sorted cmp x sorted) acc xs)"
    for acc
    by (induction xs arbitrary: acc) (auto simp: sorted_insert_sorted_gen[OF assms])
  then show ?thesis by (simp add: insertion_sort_def)
qed

lemma insertion_sort_conforms_gen:
  fixes f :: "'a \<Rightarrow> 'k::linorder"
  assumes "\<And>a b. cmp a b \<longleftrightarrow> f a < f b"
  shows "sort_conforms cmp insertion_sort"
proof -
  have "(\<lambda>a b. \<not> cmp b a) = (\<lambda>a b. f a \<le> f b)"
    by (auto simp: assms fun_eq_iff)
  then show ?thesis
    by (simp add: sort_conforms_def mset_insertion_sort sorted_insertion_sort_gen[OF assms])
qed

lemma insertion_sort_conforms_key: "sort_conforms by_distance_then_id insertion_sort"
  by (rule insertion_sort_conforms_gen[where f = distance_id]) (rule by_distance_then_id_key)

lemma by_distance_then_id_orders: "orders_by_distance by_distance_then_id"
  by (auto simp: orders_by_distance_def by_distance_then_id_def)

lemma conforms_keys_gen:
  fixes f :: "'a \<Rightarrow> 'k::linorder"
  assumes "\<And>a b. cmp a b \<longleftrightarrow> f a < f b" and "sort_conforms cmp srt"
  shows "map f (srt cmp xs) = map f (sort_key f xs)"
proof -
  have "sorted_wrt (\<lambda>a b. \<not> cmp b a) (srt cmp xs)"
    using assms(2) by (simp add: sort_conforms_def)
  then have "sorted_wrt (\<lambda>a b. f a \<le> f b) (srt cmp xs)"
    by (simp add: assms(1) not_less)
  then have s: "sorted (map f (srt cmp xs))" by (simp add: sorted_map)
  have m: "mset (map f (srt cmp xs)) = mset (map f xs)"
    using conforms_mset[OF assms(2), of xs] by (metis mset_map)
  have "map f (srt cmp xs) = sort (map f xs)"
    using m s by (metis properties_for_sort)
  moreover have "map f (sort_key f xs) = sort (map f xs)"
    by (metis mset_map mset_sort properties_for_sort sorted_sort_key)
  ultimately show ?thesis by simp
qed

lemma conforms_is_sort_key_gen:
  fixes f :: "'a \<Rightarrow> 'k::linorder"
  assumes "\<And>a b. cmp a b \<longleftrightarrow> f a < f b" and "sort_conforms cmp srt"
    and "inj_on f (set xs)"
  shows "srt cmp xs = sort_key f xs"
proof -
  have "inj_on f (set (srt cmp xs) \<union> set (sort_key f xs))"
    using assms(3) by (simp add: conforms_set[OF assms(2)])
  with conforms_keys_gen[OF assms(1,2), of xs] show ?thesis by (rule map_inj_on)
qed

lemma brute_force_knn_key:
  "brute_force_knn env AreTheSame node query_point k dimension
   = take k (sort_key distance_id
       (brute_force env AreTheSame node query_point dimension [0..<num_of_points node]))"
proof -
  have "distance_id = (\<lambda>c :: 'a \<times> 'a Point_t. (fst c, get_id (snd c)))"
    by (simp add: distance_id_def fun_eq_iff)
  then show ?thesis by (simp add: brute_force_knn_def)
qed

text \<open>
  C1. With a conforming sort and the comparator of the spec (ascending distance, equal
  distances by ascending id), on a well-formed leaf and an empty candidate list,
  \<open>FindNearest\<close> for \<open>k\<close> neighbours returns \<open>k\<close> entries. The entries before the
  padding are non-excluded points of the leaf, and their distances and ids are, in
  order, those of the brute-force answer: ascending by distance, equal distances by
  ascending id. Where the ids of the leaf's points are distinct the result is the
  brute-force answer itself, followed by sentinel entries only when the leaf has fewer
  than \<open>k\<close> non-excluded points.
\<close>

theorem knn_matches_brute_force:
  assumes conf: "sort_conforms (PairComparator env) (std_sort env)"
    and cmp: "PairComparator env = by_distance_then_id"
    and wf: "leaf_wf node dimension"
    and cs: "candidates = brute_force env AreTheSame node query_point dimension
                            [0..<num_of_points node]"
  shows "\<exists>result. FindNearest env AreTheSame node query_point [] (Knn k) dimension = Inr result
           \<and> length result = k
           \<and> map distance_id (take (length candidates) result)
               = map distance_id (brute_force_knn env AreTheSame node query_point k dimension)
           \<and> mset (take (length candidates) result) \<subseteq># mset candidates
           \<and> drop (length candidates) result
               = replicate (k - length candidates) (numeric_limits_max env, Point_default env)
           \<and> (distinct (map (\<lambda>c. get_id (snd c)) candidates) \<longrightarrow>
                result = brute_force_knn env AreTheSame node query_point k dimension
                         @ replicate (k - length candidates)
                             (numeric_limits_max env, Point_default env))"
proof -
  let ?s = "std_sort env (PairComparator env) candidates"
  let ?res = "knn_trim env k candidates"
  let ?pad = "replicate (k - length candidates) (numeric_limits_max env, Point_default env)"
  have ok: "env_ok env"
    using conf by (simp add: env_ok_def cmp by_distance_then_id_orders)
  have conf': "sort_conforms by_distance_then_id (std_sort env)" using conf by (simp add: cmp)
  have l: "length ?s = length candidates" by (rule conforms_length[OF conf])
  have 0: "FindNearest env AreTheSame node query_point [] (Knn k) dimension = Inr ?res"
    using FindNearest_Knn_wf[OF wf, of env AreTheSame query_point "[]" k] by (simp add: cs)
  have 1: "length ?res = k" by (rule knn_trim_length[OF ok])
  have r: "?res = take k ?s @ ?pad"
    using l by (simp add: knn_trim_def Let_def)
  have t: "take (length candidates) ?res = take k ?s"
    using l by (simp add: r min_def)
  have keys: "map distance_id ?s = map distance_id (sort_key distance_id candidates)"
    using conforms_keys_gen[OF by_distance_then_id_key conf', of candidates] by (simp add: cmp)
  have 2: "map distance_id (take (length candidates) ?res)
           = map distance_id (brute_force_knn env AreTheSame node query_point k dimension)"
    unfolding t brute_force_knn_key cs[symmetric] take_map[symmetric] by (simp only: keys)
  have "mset (take k ?s) \<subseteq># mset ?s"
    by (metis append_take_drop_id mset_append mset_subset_eq_add_left)
  then have 3: "mset (take (length candidates) ?res) \<subseteq># mset candidates"
    by (simp add: t conforms_mset[OF conf])
  have 4: "drop (length candidates) ?res = ?pad"
    by (rule knn_trim_padding[OF ok])
  have 5: "?res = brute_force_knn env AreTheSame node query_point k dimension @ ?pad"
    if d: "distinct (map (\<lambda>c. get_id (snd c)) candidates)"
  proof -
    have "inj_on (\<lambda>c. get_id (snd c)) (set candidates)" using d by (simp add: distinct_map)
    then have "inj_on distance_id (set candidates)"
      by (auto simp: inj_on_def distance_id_def)
    from conforms_is_sort_key_gen[OF by_distance_then_id_key conf' this]
    have "?s = sort_key distance_id candidates" by (simp add: cmp)
    then show ?thesis by (simp add: r brute_force_knn_key cs[symmetric])
  qed
  show ?thesis using 0 1 2 3 4 5 by blast
qed

theorem knn_matches_brute_force_witness:
  "sort_conforms (PairComparator spec_env) (std_sort spec_env)
   \<and> PairComparator spec_env = by_distance_then_id
   \<and> leaf_wf plane_leaf 2
   \<and> index plane_leaf = [0, 2, 1, 3]
   \<and> FindNearest spec_env same_id plane_leaf \<lparr>get_ptr = [0,0], get_id = 0\<rparr> [] (Knn 2) 2
       = Inr (brute_force_knn spec_env same_id plane_leaf \<lparr>get_ptr = [0,0], get_id = 0\<rparr> 2 2)
   \<and> brute_force_knn spec_env same_id plane_leaf \<lparr>get_ptr = [0,0], get_id = 0\<rparr> 2 2
       = [(1, \<lparr>get_ptr = [1,0], get_id = 1\<rparr>), (1, \<lparr>get_ptr = [0,1], get_id = 2\<rparr>)]"
proof -
  let ?q = "\<lparr>get_ptr = [0,0], get_id = 0\<rparr> :: int Point_t"
  let ?c = "brute_force spec_env same_id plane_leaf ?q 2 [0..<num_of_points plane_leaf]"
  have cmp: "PairComparator spec_env = by_distance_then_id" by (simp add: spec_env_def)
  have srt: "std_sort spec_env = insertion_sort" by (simp add: spec_env_def int_env_def)
  have conf: "sort_conforms (PairComparator spec_env) (std_sort spec_env)"
    by (simp add: cmp srt insertion_sort_conforms_key)
  have wf: "leaf_wf plane_leaf 2" by (simp add: plane_leaf_def leaf_of_wf)
  have ix: "index plane_leaf = [0, 2, 1, 3]" by code_simp
  have d: "distinct (map (\<lambda>c. get_id (snd c)) ?c)" by code_simp
  have l: "length ?c = 3" by code_simp
  have v: "brute_force_knn spec_env same_id plane_leaf ?q 2 2
           = [(1, \<lparr>get_ptr = [1,0], get_id = 1\<rparr>), (1, \<lparr>get_ptr = [0,1], get_id = 2\<rparr>)]"
    by code_simp
  from knn_matches_brute_force[OF conf cmp wf refl, of same_id ?q 2]
  obtain result where r: "FindNearest spec_env same_id plane_leaf ?q [] (Knn 2) 2 = Inr result"
    and e: "distinct (map (\<lambda>c. get_id (snd c)) ?c) \<longrightarrow>
              result = brute_force_knn spec_env same_id plane_leaf ?q 2 2
                       @ replicate (2 - length ?c)
                           (numeric_limits_max spec_env, Point_default spec_env)"
    by blast
  from e d have "result = brute_force_knn spec_env same_id plane_leaf ?q 2 2"
    by (simp add: l)
  with r show ?thesis using conf cmp wf ix v by simp
qed

section \<open>InitKNeighbors\<close>

lemma fold_update_block:
  assumes "base + m \<le> length b0"
  shows "length (fold (\<lambda>j b. b[base + j := g j (b ! (base + j))]) [0..<m] b0) = length b0
         \<and> (\<forall>c<length b0.
               fold (\<lambda>j b. b[base + j := g j (b ! (base + j))]) [0..<m] b0 ! c
               = (if base \<le> c \<and> c < base + m then g (c - base) (b0 ! c) else b0 ! c))"
  using assms
proof (induction m)
  case 0
  then show ?case by auto
next
  case (Suc m)
  let ?b = "fold (\<lambda>j b. b[base + j := g j (b ! (base + j))]) [0..<m] b0"
  have ih: "length ?b = length b0"
    "\<And>c. c < length b0 \<Longrightarrow>
        ?b ! c = (if base \<le> c \<and> c < base + m then g (c - base) (b0 ! c) else b0 ! c)"
    using Suc by simp_all
  have f: "fold (\<lambda>j b. b[base + j := g j (b ! (base + j))]) [0..<Suc m] b0
           = ?b[base + m := g m (?b ! (base + m))]"
    by simp
  have bm: "base + m < length b0" using Suc.prems by simp
  show ?case
  proof (intro conjI allI impI)
    show "length (fold (\<lambda>j b. b[base + j := g j (b ! (base + j))]) [0..<Suc m] b0) = length b0"
      by (simp add: ih(1))
  next
    fix c assume c: "c < length b0"
    show "fold (\<lambda>j b. b[base + j := g j (b ! (base + j))]) [0..<Suc m] b0 ! c
          = (if base \<le> c \<and> c < base + Suc m then g (c - base) (b0 ! c) else b0 ! c)"
    proof (cases "c = base + m")
      case True
      then show ?thesis using bm by (simp add: f ih)
    next
      case False
      then show ?thesis using c by (auto simp: f ih nth_list_update)
    qed
  qed
qed

lemma div_block: "m * k \<le> c \<Longrightarrow> c < m * k + k \<Longrightarrow> c div k = (m::nat)"
  by (rule div_nat_eqI) (simp_all add: mult.commute)

lemma InitKNeighbors_inner:
  assumes "i < length (index node)" "i * knns + m \<le> length kn"
  shows "fold_err (InitKNeighbors_cell node knns i) [0..<m] kn
         = Inr (fold (\<lambda>j b. b[i * knns + j := (b ! (i * knns + j))\<lparr>nn_point_id := index node ! i\<rparr>])
                     [0..<m] kn)"
  using assms(2)
proof (induction m)
  case 0
  then show ?case by simp
next
  case (Suc m)
  let ?b = "fold (\<lambda>j b. b[i * knns + j := (b ! (i * knns + j))\<lparr>nn_point_id := index node ! i\<rparr>])
                 [0..<m] kn"
  have l: "length ?b = length kn"
    using fold_update_block[of "i * knns" m kn "\<lambda>j cell. cell\<lparr>nn_point_id := index node ! i\<rparr>"] Suc.prems
    by simp
  show ?case
    using Suc assms(1) l
    by (simp add: fold_err_append InitKNeighbors_cell_def)
qed

lemma InitKNeighbors_outer:
  assumes "num_of_points node \<le> length (index node)"
    and "num_of_points node * knns \<le> length (kneighbors node)"
    and "m \<le> num_of_points node"
  shows "\<exists>kn'. fold_err (\<lambda>kn i. fold_err (InitKNeighbors_cell node knns i) [0..<knns] kn)
                  [0..<m] (kneighbors node) = Inr kn'
               \<and> primed node knns m kn'"
  using assms(3)
proof (induction m)
  case 0
  then show ?case by (simp add: primed_def)
next
  case (Suc m)
  then obtain kn1 where
    f: "fold_err (\<lambda>kn i. fold_err (InitKNeighbors_cell node knns i) [0..<knns] kn)
          [0..<m] (kneighbors node) = Inr kn1"
    and p: "primed node knns m kn1"
    by auto
  have l1: "length kn1 = length (kneighbors node)" using p by (simp add: primed_def)
  have mi: "m < length (index node)" using Suc.prems assms(1) by simp
  have "Suc m * knns \<le> num_of_points node * knns"
    using Suc.prems by (intro mult_le_mono1) simp
  then have bound: "m * knns + knns \<le> length kn1" using assms(2) l1 by simp
  let ?g = "\<lambda>(j::nat) cell :: 'a NNResult. cell\<lparr>nn_point_id := index node ! m\<rparr>"
  let ?kn2 = "fold (\<lambda>j b. b[m * knns + j := ?g j (b ! (m * knns + j))]) [0..<knns] kn1"
  have inner: "fold_err (InitKNeighbors_cell node knns m) [0..<knns] kn1 = Inr ?kn2"
    using InitKNeighbors_inner[OF mi bound] by simp
  note blk = fold_update_block[OF bound, of ?g]
  have "primed node knns (Suc m) ?kn2"
    unfolding primed_def
  proof (intro conjI allI impI)
    show "length ?kn2 = length (kneighbors node)" using blk l1 by simp
  next
    fix c assume c: "c < length (kneighbors node)"
    then have c1: "c < length kn1" using l1 by simp
    have v1: "kn1 ! c = (if c < m * knns
                      then (kneighbors node ! c)\<lparr>nn_point_id := index node ! (c div knns)\<rparr>
                      else kneighbors node ! c)"
      using p c by (simp add: primed_def)
    have v2: "?kn2 ! c = (if m * knns \<le> c \<and> c < m * knns + knns then ?g (c - m * knns) (kn1 ! c)
                          else kn1 ! c)"
      using blk c1 by blast
    show "?kn2 ! c = (if c < Suc m * knns
                      then (kneighbors node ! c)\<lparr>nn_point_id := index node ! (c div knns)\<rparr>
                      else kneighbors node ! c)"
    proof (cases "m * knns \<le> c \<and> c < m * knns + knns")
      case True
      then have "c div knns = m" by (simp add: div_block)
      then show ?thesis using True v1 v2 by simp
    next
      case False
      then show ?thesis using v1 v2 by auto
    qed
  qed
  then show ?case
    using f inner by (simp add: fold_err_append)
qed

text \<open>
  C7, as stated, fails: \<open>InitKNeighbors\<close> allocates nothing. The constructor leaves
  \<open>kneighbors_\<close> NULL and \<open>Init\<close> does not touch it, so on the leaf as built the
  first write is out of bounds; and on a leaf that has been given a buffer of 9 cells,
  with 4 points and \<open>k = 2\<close>, the buffer still has 9 cells afterwards, not 8.
\<close>

theorem InitKNeighbors_counterexample:
  "kneighbors (Node_new () () 0 0 (2147483647::int)) = []
   \<and> kneighbors plane_leaf = []
   \<and> InitKNeighbors plane_leaf 1 = Inl OutOfBounds
   \<and> InitKNeighbors (with_buffer plane_leaf 9) 2
       = Inr (plane_leaf\<lparr>kneighbors := map blank_cell [0, 0, 2, 2, 1, 1, 3, 3, 99]\<rparr>)
   \<and> length (map blank_cell [0, 0, 2, 2, 1, 1, 3, 3, 99]) \<noteq> num_of_points plane_leaf * 2"
  by code_simp

text \<open>
  C7, amended. On a leaf that already has a neighbors buffer of at least
  \<open>num_of_points_ * k\<close> cells (and at least \<open>num_of_points_\<close> ids),
  \<open>InitKNeighbors(k)\<close> writes the original id of point \<open>i\<close> into the \<open>point_id_\<close>
  member of each of the \<open>k\<close> cells \<open>i*k+j\<close> of that point, and changes nothing else:
  the other members of those cells, the cells beyond, the length of the buffer and the
  rest of the node stay as they were.
\<close>

theorem InitKNeighbors_primes:
  assumes "num_of_points node \<le> length (index node)"
    and "num_of_points node * knns \<le> length (kneighbors node)"
  shows "\<exists>kn'. InitKNeighbors node knns = Inr (node\<lparr>kneighbors := kn'\<rparr>)
           \<and> length kn' = length (kneighbors node)
           \<and> (\<forall>i<num_of_points node. \<forall>j<knns.
                 kn' ! (i * knns + j)
                 = (kneighbors node ! (i * knns + j))\<lparr>nn_point_id := index node ! i\<rparr>)
           \<and> (\<forall>c<length (kneighbors node). num_of_points node * knns \<le> c
                 \<longrightarrow> kn' ! c = kneighbors node ! c)"
proof -
  from InitKNeighbors_outer[OF assms order_refl]
  obtain kn' where
    f: "fold_err (\<lambda>kn i. fold_err (InitKNeighbors_cell node knns i) [0..<knns] kn)
          [0..<num_of_points node] (kneighbors node) = Inr kn'"
    and p: "primed node knns (num_of_points node) kn'"
    by blast
  have 1: "InitKNeighbors node knns = Inr (node\<lparr>kneighbors := kn'\<rparr>)"
    by (simp add: InitKNeighbors_def f)
  have 2: "length kn' = length (kneighbors node)" using p by (simp add: primed_def)
  have 3: "kn' ! (i * knns + j) = (kneighbors node ! (i * knns + j))\<lparr>nn_point_id := index node ! i\<rparr>"
    if "i < num_of_points node" "j < knns" for i j
  proof -
    have "Suc i * knns \<le> num_of_points node * knns"
      using that(1) by (intro mult_le_mono1) simp
    then have a: "i * knns + j < num_of_points node * knns" using that(2) by simp
    then have b: "i * knns + j < length (kneighbors node)" using assms(2) by simp
    have "(i * knns + j) div knns = i" using that(2) by (simp add: div_block)
    then show ?thesis using p a b by (simp add: primed_def)
  qed
  have 4: "kn' ! c = kneighbors node ! c"
    if "c < length (kneighbors node)" "num_of_points node * knns \<le> c" for c
    using p that by (simp add: primed_def)
  show ?thesis using 1 2 3 4 by blast
qed

theorem InitKNeighbors_primes_witness:
  "num_of_points (with_buffer plane_leaf 9) \<le> length (index (with_buffer plane_leaf 9))
   \<and> num_of_points (with_buffer plane_leaf 9) * 2 \<le> length (kneighbors (with_buffer plane_leaf 9))
   \<and> InitKNeighbors (with_buffer plane_leaf 9) 2
       = Inr ((with_buffer plane_leaf 9)\<lparr>kneighbors := map blank_cell [0, 0, 2, 2, 1, 1, 3, 3, 99]\<rparr>)
   \<and> length (map blank_cell [0, 0, 2, 2, 1, 1, 3, 3, 99])
       = length (kneighbors (with_buffer plane_leaf 9))"
proof -
  let ?N = "with_buffer plane_leaf 9"
  have h1: "num_of_points ?N \<le> length (index ?N)" by code_simp
  have h2: "num_of_points ?N * 2 \<le> length (kneighbors ?N)" by code_simp
  from InitKNeighbors_primes[OF h1 h2]
  obtain kn' where r: "InitKNeighbors ?N 2 = Inr (?N\<lparr>kneighbors := kn'\<rparr>)"
    and l: "length kn' = length (kneighbors ?N)"
    by blast
  have ev: "InitKNeighbors ?N 2 = Inr (?N\<lparr>kneighbors := map blank_cell [0, 0, 2, 2, 1, 1, 3, 3, 99]\<rparr>)"
    by code_simp
  have "kneighbors (?N\<lparr>kneighbors := kn'\<rparr>)
        = kneighbors (?N\<lparr>kneighbors := map blank_cell [0, 0, 2, 2, 1, 1, 3, 3, 99]\<rparr>)"
    using r ev by simp
  then have "kn' = map blank_cell [0, 0, 2, 2, 1, 1, 3, 3, 99]" by simp
  then show ?thesis using h1 h2 ev l by simp
qed

section \<open>FindAllNearest for k nearest neighbours\<close>

lemma knn_block_length:
  "env_ok env \<Longrightarrow> length (knn_block env AreTheSame this k dimension query_node i) = k"
  by (simp add: knn_block_def knn_trim_length)

lemma seeds_length: "length (seeds kn k i) = k"
  by (simp add: seeds_def)

lemma seeds_cong:
  assumes "\<And>j. j < k \<Longrightarrow> kn' ! (i * k + j) = kn ! (i * k + j)"
  shows "seeds kn' k i = seeds kn k i"
  using assms by (simp add: seeds_def)

lemma knn_block_last:
  assumes "env_ok env" "1 \<le> k"
  shows "fst (last (knn_block env AreTheSame this k dimension query_node i))
         = kth_distance env AreTheSame this k dimension query_node i"
proof -
  let ?all = "seeds (kneighbors query_node) k i
        @ brute_force env AreTheSame this (leaf_point query_node dimension i) dimension
            [0..<num_of_points this]"
  let ?B = "knn_block env AreTheSame this k dimension query_node i"
  have l: "length ?B = k" by (rule knn_block_length[OF assms(1)])
  have ge: "k \<le> length ?all" by (simp add: seeds_length)
  have d: "map fst ?B = take k (sort (map fst ?all))"
    using knn_trim_distances[OF assms(1), of k ?all] ge by (simp add: knn_block_def)
  have ne: "?B \<noteq> []" using l assms(2) by auto
  have "fst (last ?B) = map fst ?B ! (k - 1)"
    using l assms(2) ne by (simp add: last_conv_nth)
  also have "\<dots> = sort (map fst ?all) ! (k - 1)"
    using assms(2) by (simp add: d)
  finally show ?thesis by (simp add: kth_distance_def)
qed

lemma knn_step_wf:
  assumes ok: "env_ok env" and wt: "leaf_wf this dimension" and wq: "leaf_wf query_node dimension"
    and k: "1 \<le> k" and buf: "num_of_points query_node * k \<le> length (kneighbors query_node)"
    and m: "m < num_of_points query_node"
    and inv: "merged env AreTheSame this k dimension query_node m kn1"
  shows "\<exists>kn2. knn_step env AreTheSame this k dimension (query_node\<lparr>kneighbors := kn1\<rparr>, ml) m
               = Inr (query_node\<lparr>kneighbors := kn2\<rparr>,
                      max ml (kth_distance env AreTheSame this k dimension query_node m))
             \<and> merged env AreTheSame this k dimension query_node (Suc m) kn2"
proof -
  let ?kn = "kneighbors query_node"
  let ?B = "knn_block env AreTheSame this k dimension query_node m"
  have l1: "length kn1 = length ?kn" using inv by (simp add: merged_def)
  have "Suc m * k \<le> num_of_points query_node * k"
    using m by (intro mult_le_mono1) simp
  then have bound: "m * k + k \<le> length kn1" using buf l1 by simp
  have cells: "kn1 ! (m * k + j) = ?kn ! (m * k + j)" if "j < k" for j
    using inv that bound l1 by (simp add: merged_def)
  have sd: "seeds kn1 k m = seeds ?kn k m"
    by (rule seeds_cong) (rule cells)
  have a: "m < length (index query_node)" using wq m by (simp add: leaf_wf_def)
  have b: "m * dimension + dimension \<le> length (points query_node)"
    using wq m slot_in_bounds[of m "num_of_points query_node" dimension]
    by (simp add: leaf_wf_def)
  have p: "\<lparr>get_ptr = take dimension (drop (m * dimension) (points query_node)),
            get_id = index query_node ! m\<rparr> = leaf_point query_node dimension m"
    by (simp add: leaf_point_def)
  have fn: "FindNearest env AreTheSame this (leaf_point query_node dimension m) (seeds ?kn k m)
              (Knn k) dimension = Inr ?B"
    by (simp add: FindNearest_Knn_wf[OF wt] knn_block_def)
  have lB: "length ?B = k" by (rule knn_block_length[OF ok])
  let ?g = "\<lambda>j cell. store cell (?B ! j)"
  let ?kn2 = "fold (\<lambda>j b. b[m * k + j := ?g j (b ! (m * k + j))]) [0..<k] kn1"
  have mx: "(if ml < fst (last ?B) then fst (last ?B) else ml)
            = max ml (kth_distance env AreTheSame this k dimension query_node m)"
    by (auto simp: knn_block_last[OF ok k] max_def)
  have kpos: "k \<noteq> 0" and idx: "\<not> length kn1 \<le> m * k + k - 1"
    using k bound by simp_all
  have sd': "map (\<lambda>j. (nn_distance (kn1 ! (m * k + j)), nn_nearest (kn1 ! (m * k + j)))) [0..<k]
             = seeds ?kn k m"
    using sd by (simp add: seeds_def)
  have step: "knn_step env AreTheSame this k dimension (query_node\<lparr>kneighbors := kn1\<rparr>, ml) m
               = Inr (query_node\<lparr>kneighbors := ?kn2\<rparr>,
                      max ml (kth_distance env AreTheSame this k dimension query_node m))"
    unfolding knn_step_def
    using a b kpos idx
    by (simp add: Let_def p sd' fn lB mx store_def)
  note blk = fold_update_block[OF bound, of ?g]
  have "merged env AreTheSame this k dimension query_node (Suc m) ?kn2"
    unfolding merged_def
  proof (intro conjI allI impI)
    show "length ?kn2 = length ?kn" using blk l1 by simp
  next
    fix c assume c: "c < length ?kn"
    then have c1: "c < length kn1" using l1 by simp
    have v1: "kn1 ! c = (if c < m * k
                      then store (?kn ! c)
                             (knn_block env AreTheSame this k dimension query_node (c div k)
                                ! (c mod k))
                      else ?kn ! c)"
      using inv c by (simp add: merged_def)
    have v2: "?kn2 ! c = (if m * k \<le> c \<and> c < m * k + k then ?g (c - m * k) (kn1 ! c)
                          else kn1 ! c)"
      using blk c1 by blast
    show "?kn2 ! c = (if c < Suc m * k
                      then store (?kn ! c)
                             (knn_block env AreTheSame this k dimension query_node (c div k)
                                ! (c mod k))
                      else ?kn ! c)"
    proof (cases "m * k \<le> c \<and> c < m * k + k")
      case True
      then have dv: "c div k = m" by (simp add: div_block)
      have "c mod k = c - (c div k) * k" by (simp add: minus_div_mult_eq_mod)
      then have md: "c mod k = c - m * k" using dv by simp
      show ?thesis using True v1 v2 dv md by simp
    next
      case False
      then show ?thesis using v1 v2 by auto
    qed
  qed
  with step show ?thesis by blast
qed

lemma knn_loop_wf:
  assumes ok: "env_ok env" and wt: "leaf_wf this dimension" and wq: "leaf_wf query_node dimension"
    and k: "1 \<le> k" and buf: "num_of_points query_node * k \<le> length (kneighbors query_node)"
    and m: "m \<le> num_of_points query_node"
  shows "\<exists>kn'. fold_err (knn_step env AreTheSame this k dimension) [0..<m] (query_node, ml)
               = Inr (query_node\<lparr>kneighbors := kn'\<rparr>,
                      fold (\<lambda>i worst. max worst
                              (kth_distance env AreTheSame this k dimension query_node i))
                           [0..<m] ml)
             \<and> merged env AreTheSame this k dimension query_node m kn'"
  using m
proof (induction m)
  case 0
  show ?case by (intro exI[of _ "kneighbors query_node"]) (simp add: merged_def)
next
  case (Suc m)
  then obtain kn1 where
    f: "fold_err (knn_step env AreTheSame this k dimension) [0..<m] (query_node, ml)
               = Inr (query_node\<lparr>kneighbors := kn1\<rparr>,
                      fold (\<lambda>i worst. max worst
                              (kth_distance env AreTheSame this k dimension query_node i))
                           [0..<m] ml)"
    and inv: "merged env AreTheSame this k dimension query_node m kn1"
    by auto
  have m': "m < num_of_points query_node" using Suc.prems by simp
  let ?w = "fold (\<lambda>i worst. max worst
                    (kth_distance env AreTheSame this k dimension query_node i)) [0..<m] ml"
  from knn_step_wf[OF ok wt wq k buf m' inv, of ?w]
  obtain kn2 where
    s: "knn_step env AreTheSame this k dimension (query_node\<lparr>kneighbors := kn1\<rparr>, ?w) m
        = Inr (query_node\<lparr>kneighbors := kn2\<rparr>,
               max ?w (kth_distance env AreTheSame this k dimension query_node m))"
    and inv2: "merged env AreTheSame this k dimension query_node (Suc m) kn2"
    by blast
  have "fold_err (knn_step env AreTheSame this k dimension) [0..<Suc m] (query_node, ml)
        = Inr (query_node\<lparr>kneighbors := kn2\<rparr>,
               fold (\<lambda>i worst. max worst
                       (kth_distance env AreTheSame this k dimension query_node i))
                    [0..<Suc m] ml)"
    by (simp add: fold_err_append f s)
  with inv2 show ?case by blast
qed

lemma merged_cell:
  assumes "merged env AreTheSame this k dimension query_node n kn'"
    and "n * k \<le> length (kneighbors query_node)" and "i < n" and "j < k"
  shows "kn' ! (i * k + j)
         = store (kneighbors query_node ! (i * k + j))
             (knn_block env AreTheSame this k dimension query_node i ! j)"
proof -
  have "Suc i * k \<le> n * k" using assms(3) by (intro mult_le_mono1) simp
  then have a: "i * k + j < n * k" using assms(4) by simp
  then have b: "i * k + j < length (kneighbors query_node)" using assms(2) by simp
  have d: "(i * k + j) div k = i" using assms(4) by (simp add: div_block)
  have m: "(i * k + j) mod k = j" using assms(4) by simp
  show ?thesis using assms(1) a b d m by (simp add: merged_def)
qed

lemma merged_beyond:
  assumes "merged env AreTheSame this k dimension query_node n kn'"
    and "c < length (kneighbors query_node)" and "n * k \<le> c"
  shows "kn' ! c = kneighbors query_node ! c"
  using assms by (simp add: merged_def)

lemma fold_max_Max:
  "fold (\<lambda>i worst. max worst (f i)) xs a = Max (insert a (f ` set xs))"
  for a :: "'a::linorder"
proof (induction xs arbitrary: a)
  case Nil
  then show ?case by simp
next
  case (Cons x xs)
  have "Max (insert (max a (f x)) (f ` set xs)) = Max (insert a (insert (f x) (f ` set xs)))"
    by (cases "xs = []") (simp_all add: max.assoc)
  then show ?case by (simp add: Cons.IH)
qed

lemma FindAllNearest_Knn_wf:
  assumes ok: "env_ok env" and wt: "leaf_wf this dimension" and wq: "leaf_wf query_node dimension"
    and k: "1 \<le> k" and buf: "num_of_points query_node * k \<le> length (kneighbors query_node)"
  shows "\<exists>kn'. FindAllNearest env strerror AreTheSame this query_node bound (Knn k) dimension fp
               = Inr (query_node\<lparr>kneighbors := kn'\<rparr>,
                      min bound (worst_kth env AreTheSame this k dimension query_node), fp)
             \<and> merged env AreTheSame this k dimension query_node (num_of_points query_node) kn'"
proof -
  from knn_loop_wf[OF ok wt wq k buf order_refl, of AreTheSame 0]
  obtain kn' where
    f: "fold_err (knn_step env AreTheSame this k dimension) [0..<num_of_points query_node]
          (query_node, 0)
        = Inr (query_node\<lparr>kneighbors := kn'\<rparr>,
               worst_kth env AreTheSame this k dimension query_node)"
    and inv: "merged env AreTheSame this k dimension query_node (num_of_points query_node) kn'"
    unfolding worst_kth_def by blast
  have "FindAllNearest env strerror AreTheSame this query_node bound (Knn k) dimension fp
        = Inr (query_node\<lparr>kneighbors := kn'\<rparr>,
               min bound (worst_kth env AreTheSame this k dimension query_node), fp)"
    by (auto simp: FindAllNearest_def f min_def)
  with inv show ?thesis by blast
qed

text \<open>
  C4. On well-formed nodes, with \<open>k \<ge> 1\<close> and a buffer of at least
  \<open>num_of_points_ * k\<close> cells, \<open>FindAllNearest\<close> for \<open>k\<close> neighbours returns, and
  the bound it hands back is the smaller of the incoming bound and the running worst of
  the \<open>k\<close>-th smallest distances: the running worst is the maximum, over the points of
  the query node (and the initial 0), of the \<open>k\<close>-th smallest distance among the
  point's candidates, which is the distance left in the point's last cell. So the
  running worst is what comes back whenever it tightens the bound, and the bound never
  grows.
\<close>

theorem pruning_bound_tightens:
  assumes "env_ok env" and "leaf_wf this dimension" and "leaf_wf query_node dimension"
    and "1 \<le> k" and "num_of_points query_node * k \<le> length (kneighbors query_node)"
  shows "\<exists>query_node' bound'.
           FindAllNearest env strerror AreTheSame this query_node bound (Knn k) dimension fp
             = Inr (query_node', bound', fp)
           \<and> bound' = min bound (worst_kth env AreTheSame this k dimension query_node)
           \<and> bound' \<le> bound
           \<and> worst_kth env AreTheSame this k dimension query_node
               = Max (insert 0 ((\<lambda>i. kth_distance env AreTheSame this k dimension query_node i)
                                ` {0..<num_of_points query_node}))
           \<and> (\<forall>i<num_of_points query_node.
                 nn_distance (kneighbors query_node' ! (i * k + k - 1))
                 = kth_distance env AreTheSame this k dimension query_node i)"
proof -
  from FindAllNearest_Knn_wf[OF assms, of strerror AreTheSame bound fp]
  obtain kn' where
    r: "FindAllNearest env strerror AreTheSame this query_node bound (Knn k) dimension fp
               = Inr (query_node\<lparr>kneighbors := kn'\<rparr>,
                      min bound (worst_kth env AreTheSame this k dimension query_node), fp)"
    and inv: "merged env AreTheSame this k dimension query_node (num_of_points query_node) kn'"
    by blast
  have w: "worst_kth env AreTheSame this k dimension query_node
               = Max (insert 0 ((\<lambda>i. kth_distance env AreTheSame this k dimension query_node i)
                                ` {0..<num_of_points query_node}))"
    by (simp add: worst_kth_def fold_max_Max)
  have c: "nn_distance (kn' ! (i * k + k - 1))
           = kth_distance env AreTheSame this k dimension query_node i"
    if "i < num_of_points query_node" for i
  proof -
    let ?B = "knn_block env AreTheSame this k dimension query_node i"
    have j: "k - 1 < k" using assms(4) by simp
    have e: "i * k + k - 1 = i * k + (k - 1)" using assms(4) by simp
    have l: "length ?B = k" by (rule knn_block_length[OF assms(1)])
    then have "?B \<noteq> []" using assms(4) by auto
    then have "?B ! (k - 1) = last ?B" using l by (simp add: last_conv_nth)
    then have "nn_distance (kn' ! (i * k + (k - 1)))
               = kth_distance env AreTheSame this k dimension query_node i"
      using merged_cell[OF inv assms(5) that j]
        knn_block_last[OF assms(1,4), of AreTheSame this dimension query_node i]
      by (simp add: store_def)
    then show ?thesis by (simp only: e)
  qed
  show ?thesis using r w c by simp
qed

theorem pruning_bound_tightens_witness:
  "env_ok int_env \<and> leaf_wf plane_leaf 2 \<and> leaf_wf (with_buffer plane_leaf 8) 2
   \<and> num_of_points (with_buffer plane_leaf 8) * 2 \<le> length (kneighbors (with_buffer plane_leaf 8))
   \<and> map (kth_distance int_env same_id plane_leaf 2 2 (with_buffer plane_leaf 8)) [0..<4]
       = [1, 2, 2, 41]
   \<and> (\<exists>query_node'.
         FindAllNearest int_env strerror_linux same_id plane_leaf (with_buffer plane_leaf 8) 100
           (Knn 2) 2 \<lparr>written = [], outcomes = []\<rparr>
         = Inr (query_node', 41, \<lparr>written = [], outcomes = []\<rparr>))
   \<and> (\<exists>query_node'.
         FindAllNearest int_env strerror_linux same_id plane_leaf (with_buffer plane_leaf 8) 7
           (Knn 2) 2 \<lparr>written = [], outcomes = []\<rparr>
         = Inr (query_node', 7, \<lparr>written = [], outcomes = []\<rparr>))"
proof -
  let ?Q = "with_buffer plane_leaf 8"
  have wf: "leaf_wf plane_leaf 2"
    by (simp add: plane_leaf_def leaf_of_wf)
  have wq: "leaf_wf ?Q 2" by code_simp
  have buf: "num_of_points ?Q * 2 \<le> length (kneighbors ?Q)" by code_simp
  have kth: "map (kth_distance int_env same_id plane_leaf 2 2 ?Q) [0..<4] = [1, 2, 2, 41]"
    by code_simp
  have w: "worst_kth int_env same_id plane_leaf 2 2 ?Q = 41" by code_simp
  have k: "(1::nat) \<le> 2" by simp
  have A: "\<exists>query_node'.
         FindAllNearest int_env strerror_linux same_id plane_leaf ?Q 100
           (Knn 2) 2 \<lparr>written = [], outcomes = []\<rparr>
         = Inr (query_node', 41, \<lparr>written = [], outcomes = []\<rparr>)"
    using pruning_bound_tightens[OF int_env_ok wf wq k buf, of strerror_linux same_id 100
            "\<lparr>written = [], outcomes = []\<rparr>"]
    by (auto simp: w)
  have B: "\<exists>query_node'.
         FindAllNearest int_env strerror_linux same_id plane_leaf ?Q 7
           (Knn 2) 2 \<lparr>written = [], outcomes = []\<rparr>
         = Inr (query_node', 7, \<lparr>written = [], outcomes = []\<rparr>)"
    using pruning_bound_tightens[OF int_env_ok wf wq k buf, of strerror_linux same_id 7
            "\<lparr>written = [], outcomes = []\<rparr>"]
    by (auto simp: w)
  show ?thesis using int_env_ok wf wq buf kth A B by blast
qed

section \<open>What queries write\<close>

lemma knn_step_frame:
  assumes "knn_step env AreTheSame this k dimension st i = Inr st'"
  shows "fst st' = (fst st)\<lparr>kneighbors := kneighbors (fst st')\<rparr>"
  using assms
  by (auto simp: knn_step_def Let_def split: if_splits sum.splits)

lemma knn_loop_frame:
  assumes "fold_err (knn_step env AreTheSame this k dimension) is st = Inr st'"
  shows "fst st' = (fst st)\<lparr>kneighbors := kneighbors (fst st')\<rparr>"
  using assms
proof (induction "is" arbitrary: st)
  case Nil
  then show ?case by auto
next
  case (Cons i "is")
  from Cons.prems obtain st1 where
    s: "knn_step env AreTheSame this k dimension st i = Inr st1"
    and r: "fold_err (knn_step env AreTheSame this k dimension) is st1 = Inr st'"
    by (auto split: sum.splits)
  have a: "fst st1 = (fst st)\<lparr>kneighbors := kneighbors (fst st1)\<rparr>"
    by (rule knn_step_frame[OF s])
  have b: "fst st' = (fst st1)\<lparr>kneighbors := kneighbors (fst st')\<rparr>"
    by (rule Cons.IH[OF r])
  show ?case by (subst b, subst a) simp
qed

lemma Print_frame:
  assumes "Print IsLeaf box_Print fmt_llu fmt_lg node dimension = Inr (str, node')"
  shows "node' = node"
  using assms by (auto simp: Print_def Let_def split: if_splits sum.splits)

text \<open>
  C9. The query-time operations leave the index state alone. \<open>FindNearest\<close>,
  \<open>ClosestChild\<close> and \<open>ClosestNode\<close> read the node and hand back no node.
  \<open>FindAllNearest\<close>, whenever it returns, hands back the query node with its points,
  ids, box, statistics, point count, children, id and best distance as they were: only
  the neighbors buffer can differ, and with a radius the query node is unchanged
  altogether. \<open>Print\<close>, whenever it returns, leaves the node as it was.
\<close>

theorem queries_leave_index_unchanged:
  "(FindAllNearest env strerror AreTheSame this query_node bound range0 dimension fp
      = Inr (query_node', bound', fp')
    \<longrightarrow> points query_node' = points query_node \<and> index query_node' = index query_node
        \<and> box query_node' = box query_node \<and> statistics query_node' = statistics query_node
        \<and> num_of_points query_node' = num_of_points query_node
        \<and> left query_node' = left query_node \<and> right query_node' = right query_node
        \<and> node_id query_node' = node_id query_node
        \<and> min_dist_so_far query_node' = min_dist_so_far query_node
        \<and> query_node' = query_node\<lparr>kneighbors := kneighbors query_node'\<rparr>
        \<and> (\<forall>r. range0 = Radius r \<longrightarrow> query_node' = query_node))
   \<and> (Print IsLeaf box_Print fmt_llu fmt_lg node dimension = Inr (str, node')
        \<longrightarrow> node' = node)"
proof (intro conjI impI)
  assume r: "FindAllNearest env strerror AreTheSame this query_node bound range0 dimension fp
      = Inr (query_node', bound', fp')"
  have f: "query_node' = query_node\<lparr>kneighbors := kneighbors query_node'\<rparr>"
  proof (cases range0)
    case (Radius r0)
    with r have "query_node' = query_node"
      by (auto simp: FindAllNearest_def split: sum.splits)
    then show ?thesis by simp
  next
    case (Knn k)
    with r obtain ml where
      "fold_err (knn_step env AreTheSame this k dimension) [0..<num_of_points query_node]
         (query_node, 0) = Inr (query_node', ml)"
      by (auto simp: FindAllNearest_def split: sum.splits)
    from knn_loop_frame[OF this] show ?thesis by simp
  qed
  show "query_node' = query_node\<lparr>kneighbors := kneighbors query_node'\<rparr>" by (rule f)
  show "points query_node' = points query_node" by (subst f) simp
  show "index query_node' = index query_node" by (subst f) simp
  show "box query_node' = box query_node" by (subst f) simp
  show "statistics query_node' = statistics query_node" by (subst f) simp
  show "num_of_points query_node' = num_of_points query_node" by (subst f) simp
  show "left query_node' = left query_node" by (subst f) simp
  show "right query_node' = right query_node" by (subst f) simp
  show "node_id query_node' = node_id query_node" by (subst f) simp
  show "min_dist_so_far query_node' = min_dist_so_far query_node" by (subst f) simp
  show "\<forall>r. range0 = Radius r \<longrightarrow> query_node' = query_node"
    using r by (auto simp: FindAllNearest_def split: sum.splits)
next
  assume "Print IsLeaf box_Print fmt_llu fmt_lg node dimension = Inr (str, node')"
  then show "node' = node" by (rule Print_frame)
qed

theorem queries_leave_index_unchanged_witness:
  "FindAllNearest int_env strerror_linux same_id two_point_leaf one_point_query 100 (Knn 2) 2
       \<lparr>written = [], outcomes = []\<rparr>
     = Inr (one_point_query\<lparr>kneighbors := [slot 0 [1,0] 1 1, slot 0 [3,0] 2 9]\<rparr>, 9,
            \<lparr>written = [], outcomes = []\<rparr>)
   \<and> points (one_point_query\<lparr>kneighbors := [slot 0 [1,0] 1 1, slot 0 [3,0] 2 9]\<rparr>)
       = points one_point_query
   \<and> index (one_point_query\<lparr>kneighbors := [slot 0 [1,0] 1 1, slot 0 [3,0] 2 9]\<rparr>)
       = index one_point_query
   \<and> Print is_leaf (\<lambda>b d. ''[]'') (\<lambda>n. ''#'') (\<lambda>x. ''#'') two_point_leaf 2
     = Inr (''Leaf: #\<newline>[]num_of_points: #\<newline># # -# \<newline># # -# \<newline>'', two_point_leaf)"
proof -
  let ?Q1 = "one_point_query\<lparr>kneighbors := [slot 0 [1,0] 1 1, slot 0 [3,0] 2 9]\<rparr>"
  let ?fp = "\<lparr>written = [], outcomes = []\<rparr> :: int FILE"
  let ?S = "''Leaf: #\<newline>[]num_of_points: #\<newline># # -# \<newline># # -# \<newline>''"
  have ev1: "FindAllNearest int_env strerror_linux same_id two_point_leaf one_point_query 100
               (Knn 2) 2 ?fp = Inr (?Q1, 9, ?fp)"
    by code_simp
  have ev2: "Print is_leaf (\<lambda>b d. ''[]'') (\<lambda>n. ''#'') (\<lambda>x. ''#'') two_point_leaf 2
             = Inr (?S, two_point_leaf)"
    by code_simp
  note t = queries_leave_index_unchanged[where env = int_env and strerror = strerror_linux
      and AreTheSame = same_id and this = two_point_leaf and query_node = one_point_query
      and bound = 100 and ?range0.0 = "Knn 2" and dimension = 2 and fp = ?fp
      and query_node' = ?Q1 and bound' = 9 and fp' = ?fp]
  from t ev1 have "points ?Q1 = points one_point_query \<and> index ?Q1 = index one_point_query"
    by blast
  with ev1 ev2 show ?thesis by blast
qed

section \<open>Running the same query again\<close>

lemma sort_append_low:
  assumes "sorted A" "\<forall>a\<in>set A. \<forall>c\<in>set C. a \<le> c"
  shows "sort (A @ C) = A @ sort C"
proof -
  have "mset (A @ sort C) = mset (A @ C)" by simp
  moreover have "sorted (A @ sort C)" using assms by (simp add: sorted_append)
  ultimately show ?thesis by (metis properties_for_sort)
qed

lemma sorted_le_last:
  assumes "sorted xs" "x \<in> set xs"
  shows "x \<le> last xs"
proof -
  from assms(2) obtain i where i: "i < length xs" "xs ! i = x"
    by (auto simp: in_set_conv_nth)
  then have ne: "xs \<noteq> []" by auto
  have "xs ! i \<le> xs ! (length xs - 1)"
    using assms(1) i(1) by (intro sorted_nth_mono) simp_all
  then show ?thesis using i(2) ne by (simp add: last_conv_nth)
qed

lemma knn_block_distances:
  assumes "env_ok env"
  shows "map fst (knn_block env AreTheSame this k dimension query_node i)
         = take k (sort (map fst
             (seeds (kneighbors query_node) k i
              @ brute_force env AreTheSame this (leaf_point query_node dimension i) dimension
                  [0..<num_of_points this])))"
  using knn_trim_distances[OF assms, of k
          "seeds (kneighbors query_node) k i
           @ brute_force env AreTheSame this (leaf_point query_node dimension i) dimension
               [0..<num_of_points this]"]
  by (simp add: knn_block_def seeds_length)

lemma knn_block_sorted:
  assumes "env_ok env"
  shows "sorted (map fst (knn_block env AreTheSame this k dimension query_node i))"
  unfolding knn_block_distances[OF assms] by (rule sorted_wrt_take) simp

lemma seeds_of_merged:
  assumes "env_ok env"
    and "merged env AreTheSame this k dimension query_node n kn1"
    and "n * k \<le> length (kneighbors query_node)" and "i < n"
  shows "seeds kn1 k i = knn_block env AreTheSame this k dimension query_node i"
proof (rule nth_equalityI)
  show "length (seeds kn1 k i) = length (knn_block env AreTheSame this k dimension query_node i)"
    by (simp add: seeds_length knn_block_length[OF assms(1)])
next
  fix j assume "j < length (seeds kn1 k i)"
  then have j: "j < k" by (simp add: seeds_length)
  show "seeds kn1 k i ! j = knn_block env AreTheSame this k dimension query_node i ! j"
    using merged_cell[OF assms(2,3,4) j] j by (simp add: seeds_def store_def)
qed

lemma second_block_distances:
  assumes ok: "env_ok env" and k: "1 \<le> k"
    and inv: "merged env AreTheSame this k dimension query_node n kn1"
    and buf: "n * k \<le> length (kneighbors query_node)" and i: "i < n"
    and far: "\<forall>c\<in>set (brute_force env AreTheSame this (leaf_point query_node dimension i)
                          dimension [0..<num_of_points this]).
                fst (last (knn_block env AreTheSame this k dimension query_node i)) \<le> fst c"
  shows "map fst (knn_block env AreTheSame this k dimension (query_node\<lparr>kneighbors := kn1\<rparr>) i)
         = map fst (knn_block env AreTheSame this k dimension query_node i)"
proof -
  let ?B1 = "knn_block env AreTheSame this k dimension query_node i"
  let ?bf = "brute_force env AreTheSame this (leaf_point query_node dimension i)
               dimension [0..<num_of_points this]"
  have lp: "leaf_point (query_node\<lparr>kneighbors := kn1\<rparr>) dimension i
            = leaf_point query_node dimension i"
    by (simp add: leaf_point_def)
  have sd: "seeds kn1 k i = ?B1" by (rule seeds_of_merged[OF ok inv buf i])
  have l: "length ?B1 = k" by (rule knn_block_length[OF ok])
  then have ne: "?B1 \<noteq> []" using k by auto
  have s: "sorted (map fst ?B1)" by (rule knn_block_sorted[OF ok])
  have lastf: "last (map fst ?B1) = fst (last ?B1)" using ne by (simp add: last_map)
  have low: "\<forall>a\<in>set (map fst ?B1). \<forall>c\<in>set (map fst ?bf). a \<le> c"
  proof (intro ballI)
    fix a c assume a: "a \<in> set (map fst ?B1)" and c: "c \<in> set (map fst ?bf)"
    have "a \<le> fst (last ?B1)" using sorted_le_last[OF s a] lastf by simp
    moreover have "fst (last ?B1) \<le> c" using far c by auto
    ultimately show "a \<le> c" by simp
  qed
  have "map fst (knn_block env AreTheSame this k dimension (query_node\<lparr>kneighbors := kn1\<rparr>) i)
        = take k (sort (map fst ?B1 @ map fst ?bf))"
    using knn_block_distances[OF ok, of AreTheSame this k dimension
            "query_node\<lparr>kneighbors := kn1\<rparr>" i]
    by (simp add: lp sd)
  also have "\<dots> = take k (map fst ?B1 @ sort (map fst ?bf))"
    by (simp only: sort_append_low[OF s low])
  also have "\<dots> = map fst ?B1" using l by simp
  finally show ?thesis .
qed

lemma store_point_id: "nn_point_id (store cell t) = nn_point_id cell"
  by (simp add: store_def)

lemma store_distance: "nn_distance (store cell t) = fst t"
  by (simp add: store_def)

lemma store_nearest: "nn_nearest (store cell t) = snd t"
  by (simp add: store_def)

lemma merged_last_cell:
  assumes "env_ok env" "1 \<le> k"
    and "merged env AreTheSame this k dimension query_node n kn1"
    and "n * k \<le> length (kneighbors query_node)" and "i < n"
  shows "nn_distance (kn1 ! (i * k + k - 1))
         = fst (last (knn_block env AreTheSame this k dimension query_node i))"
proof -
  let ?B = "knn_block env AreTheSame this k dimension query_node i"
  have j: "k - 1 < k" using assms(2) by simp
  have e: "i * k + k - 1 = i * k + (k - 1)" using assms(2) by simp
  have l: "length ?B = k" by (rule knn_block_length[OF assms(1)])
  then have "?B \<noteq> []" using assms(2) by auto
  then have "?B ! (k - 1) = last ?B" using l by (simp add: last_conv_nth)
  then have "nn_distance (kn1 ! (i * k + (k - 1))) = fst (last ?B)"
    using merged_cell[OF assms(3,4,5) j] by (simp add: store_distance)
  then show ?thesis by (simp only: e)
qed

lemma merged_last_pair:
  assumes "env_ok env" "1 \<le> k"
    and "merged env AreTheSame this k dimension query_node n kn1"
    and "n * k \<le> length (kneighbors query_node)" and "i < n"
  shows "(nn_distance (kn1 ! (i * k + k - 1)), nn_nearest (kn1 ! (i * k + k - 1)))
         = last (knn_block env AreTheSame this k dimension query_node i)"
proof -
  let ?B = "knn_block env AreTheSame this k dimension query_node i"
  have j: "k - 1 < k" using assms(2) by simp
  have e: "i * k + k - 1 = i * k + (k - 1)" using assms(2) by simp
  have l: "length ?B = k" by (rule knn_block_length[OF assms(1)])
  then have "?B \<noteq> []" using assms(2) by auto
  then have "?B ! (k - 1) = last ?B" using l by (simp add: last_conv_nth)
  then have "(nn_distance (kn1 ! (i * k + (k - 1))), nn_nearest (kn1 ! (i * k + (k - 1))))
             = last ?B"
    using merged_cell[OF assms(3,4,5) j] by (simp add: store_distance store_nearest)
  then show ?thesis by (simp only: e)
qed

lemma rerun_distances:
  assumes ok: "env_ok env" and wt: "leaf_wf this dimension" and wq: "leaf_wf query_node dimension"
    and k: "1 \<le> k" and buf: "num_of_points query_node * k \<le> length (kneighbors query_node)"
    and first: "FindAllNearest env strerror AreTheSame this query_node bound (Knn k) dimension fp
                = Inr (query_node1, bound1, fp1)"
    and far: "\<forall>i<num_of_points query_node.
                \<forall>c\<in>set (brute_force env AreTheSame this (leaf_point query_node dimension i)
                            dimension [0..<num_of_points this]).
                  nn_distance (kneighbors query_node1 ! (i * k + k - 1)) \<le> fst c"
  shows "\<exists>query_node2.
           FindAllNearest env strerror AreTheSame this query_node1 bound1 (Knn k) dimension fp1
             = Inr (query_node2, bound1, fp1)
           \<and> map nn_distance (kneighbors query_node2) = map nn_distance (kneighbors query_node1)
           \<and> map nn_point_id (kneighbors query_node2) = map nn_point_id (kneighbors query_node1)"
proof -
  let ?n = "num_of_points query_node"
  let ?W1 = "worst_kth env AreTheSame this k dimension query_node"
  let ?B1 = "knn_block env AreTheSame this k dimension query_node"
  from FindAllNearest_Knn_wf[OF ok wt wq k buf, of strerror AreTheSame bound fp] first
  obtain kn1 where q1: "query_node1 = query_node\<lparr>kneighbors := kn1\<rparr>"
    and b1: "bound1 = min bound ?W1" and f1: "fp1 = fp"
    and inv1: "merged env AreTheSame this k dimension query_node ?n kn1"
    by auto
  have l1: "length kn1 = length (kneighbors query_node)" using inv1 by (simp add: merged_def)
  have wq1: "leaf_wf query_node1 dimension" using wq by (simp add: q1 leaf_wf_def)
  have n1: "num_of_points query_node1 = ?n" by (simp add: q1)
  have kn1: "kneighbors query_node1 = kn1" by (simp add: q1)
  have buf1: "num_of_points query_node1 * k \<le> length (kneighbors query_node1)"
    using buf l1 by (simp add: q1)
  let ?B2 = "knn_block env AreTheSame this k dimension query_node1"
  let ?W2 = "worst_kth env AreTheSame this k dimension query_node1"
  from FindAllNearest_Knn_wf[OF ok wt wq1 k buf1, of strerror AreTheSame bound1 fp1]
  obtain kn2 where
    r2: "FindAllNearest env strerror AreTheSame this query_node1 bound1 (Knn k) dimension fp1
         = Inr (query_node1\<lparr>kneighbors := kn2\<rparr>, min bound1 ?W2, fp1)"
    and inv2: "merged env AreTheSame this k dimension query_node1 ?n kn2"
    unfolding n1 by blast
  have l2: "length kn2 = length kn1" using inv2 by (simp add: merged_def kn1)
  have blocks: "map fst (?B2 i) = map fst (?B1 i)" if i: "i < ?n" for i
  proof -
    have e: "nn_distance (kneighbors query_node1 ! (i * k + k - 1)) = fst (last (?B1 i))"
      using merged_last_cell[OF ok k inv1 buf i] by (simp only: kn1)
    have "\<forall>c\<in>set (brute_force env AreTheSame this (leaf_point query_node dimension i)
                     dimension [0..<num_of_points this]).
            nn_distance (kneighbors query_node1 ! (i * k + k - 1)) \<le> fst c"
      using far i by blast
    then have "\<forall>c\<in>set (brute_force env AreTheSame this (leaf_point query_node dimension i)
                     dimension [0..<num_of_points this]).
            fst (last (?B1 i)) \<le> fst c"
      unfolding e .
    from second_block_distances[OF ok k inv1 buf i this] show ?thesis by (simp add: q1)
  qed
  have kth: "kth_distance env AreTheSame this k dimension query_node1 i
             = kth_distance env AreTheSame this k dimension query_node i" if i: "i < ?n" for i
  proof -
    have ne1: "?B1 i \<noteq> []" and ne2: "?B2 i \<noteq> []"
      using knn_block_length[OF ok, of AreTheSame this k dimension query_node i]
        knn_block_length[OF ok, of AreTheSame this k dimension query_node1 i] k by auto
    have "fst (last (?B2 i)) = last (map fst (?B2 i))" using ne2 by (simp add: last_map)
    also have "\<dots> = last (map fst (?B1 i))" by (simp only: blocks[OF i])
    also have "\<dots> = fst (last (?B1 i))" using ne1 by (simp add: last_map)
    finally show ?thesis by (simp add: knn_block_last[OF ok k])
  qed
  have "?W2 = ?W1"
    unfolding worst_kth_def n1
    by (rule fold_cong) (simp_all add: kth)
  then have bd: "min bound1 ?W2 = bound1" by (simp add: b1)
  have cellD: "nn_distance (kn2 ! c) = nn_distance (kn1 ! c)
               \<and> nn_point_id (kn2 ! c) = nn_point_id (kn1 ! c)" if c: "c < length kn1" for c
  proof (cases "c < ?n * k")
    case True
    have kp: "0 < k" using k by simp
    let ?i = "c div k" and ?j = "c mod k"
    have i: "?i < ?n" using True by (simp add: less_mult_imp_div_less)
    have j: "?j < k" using kp by simp
    have e: "?i * k + ?j = c" by simp
    have c2: "kn2 ! c = store (kn1 ! c) (?B2 ?i ! ?j)"
      using merged_cell[OF inv2 _ i j] buf1 by (simp add: e kn1 n1)
    have c1: "kn1 ! c = store (kneighbors query_node ! c) (?B1 ?i ! ?j)"
      using merged_cell[OF inv1 buf i j] by (simp add: e)
    have "fst (?B2 ?i ! ?j) = map fst (?B2 ?i) ! ?j"
      using j by (simp add: knn_block_length[OF ok])
    also have "\<dots> = map fst (?B1 ?i) ! ?j" by (simp only: blocks[OF i])
    also have "\<dots> = fst (?B1 ?i ! ?j)"
      using j by (simp add: knn_block_length[OF ok])
    finally have "fst (?B2 ?i ! ?j) = fst (?B1 ?i ! ?j)" .
    then show ?thesis
      by (simp add: c2 store_distance store_point_id) (simp add: c1 store_distance)
  next
    case False
    then have "kn2 ! c = kn1 ! c"
      using merged_beyond[OF inv2, of c] c by (simp add: kn1 n1)
    then show ?thesis by simp
  qed
  have d: "map nn_distance kn2 = map nn_distance kn1"
    by (rule nth_equalityI) (simp_all add: l2 cellD)
  have p: "map nn_point_id kn2 = map nn_point_id kn1"
    by (rule nth_equalityI) (simp_all add: l2 cellD)
  show ?thesis
    using r2 d p by (simp add: bd kn1)
qed

lemma store_store: "store (store cell t) t = store cell t"
  by (simp add: store_def)

lemma second_block_identical:
  assumes ok: "env_ok env" and k: "1 \<le> k"
    and inv: "merged env AreTheSame this k dimension query_node n kn1"
    and buf: "n * k \<le> length (kneighbors query_node)" and i: "i < n"
    and strict: "\<forall>c\<in>set (brute_force env AreTheSame this (leaf_point query_node dimension i)
                             dimension [0..<num_of_points this]).
                   fst (last (knn_block env AreTheSame this k dimension query_node i)) < fst c
                   \<or> c = last (knn_block env AreTheSame this k dimension query_node i)"
    and dist: "distinct (map fst (knn_block env AreTheSame this k dimension query_node i))"
  shows "knn_block env AreTheSame this k dimension (query_node\<lparr>kneighbors := kn1\<rparr>) i
         = knn_block env AreTheSame this k dimension query_node i"
proof -
  let ?B1 = "knn_block env AreTheSame this k dimension query_node i"
  let ?B2 = "knn_block env AreTheSame this k dimension (query_node\<lparr>kneighbors := kn1\<rparr>) i"
  let ?bf = "brute_force env AreTheSame this (leaf_point query_node dimension i)
               dimension [0..<num_of_points this]"
  have far: "\<forall>c\<in>set ?bf. fst (last ?B1) \<le> fst c" using strict by (auto intro: less_imp_le)
  have d: "map fst ?B2 = map fst ?B1"
    by (rule second_block_distances[OF ok k inv buf i far])
  have lp: "leaf_point (query_node\<lparr>kneighbors := kn1\<rparr>) dimension i
            = leaf_point query_node dimension i"
    by (simp add: leaf_point_def)
  have sd: "seeds kn1 k i = ?B1" by (rule seeds_of_merged[OF ok inv buf i])
  have l: "length ?B1 = k" by (rule knn_block_length[OF ok])
  then have ne: "?B1 \<noteq> []" using k by auto
  have sub: "set ?B2 \<subseteq> set (?B1 @ ?bf)"
    unfolding knn_block_def[of env AreTheSame this k dimension "query_node\<lparr>kneighbors := kn1\<rparr>" i]
    using knn_trim_subset_full[OF ok, of k "?B1 @ ?bf"] l by (simp add: lp sd)
  have s: "sorted (map fst ?B1)" by (rule knn_block_sorted[OF ok])
  have lastf: "last (map fst ?B1) = fst (last ?B1)" using ne by (simp add: last_map)
  have in1: "e \<in> set ?B1" if e: "e \<in> set ?B2" for e
  proof (rule ccontr)
    assume n: "e \<notin> set ?B1"
    with sub e have "e \<in> set ?bf" by auto
    with strict have "fst (last ?B1) < fst e \<or> e = last ?B1" by blast
    moreover have "last ?B1 \<in> set ?B1" using ne by simp
    ultimately have gt: "fst (last ?B1) < fst e" using n by auto
    have "fst e \<in> set (map fst ?B2)" using e by simp
    then have "fst e \<in> set (map fst ?B1)" by (simp only: d)
    from sorted_le_last[OF s this] have "fst e \<le> fst (last ?B1)" by (simp add: lastf)
    with gt show False by simp
  qed
  have "inj_on fst (set ?B1)" using dist by (simp add: distinct_map)
  moreover have "set ?B2 \<union> set ?B1 = set ?B1" using in1 by auto
  ultimately have "inj_on fst (set ?B2 \<union> set ?B1)" by simp
  with d show ?thesis by (rule map_inj_on)
qed

lemma rerun_same_buffer:
  assumes ok: "env_ok env" and wt: "leaf_wf this dimension" and wq: "leaf_wf query_node dimension"
    and k: "1 \<le> k" and buf: "num_of_points query_node * k \<le> length (kneighbors query_node)"
    and first: "FindAllNearest env strerror AreTheSame this query_node bound (Knn k) dimension fp
                = Inr (query_node1, bound1, fp1)"
    and strict: "\<forall>i<num_of_points query_node.
                \<forall>c\<in>set (brute_force env AreTheSame this (leaf_point query_node dimension i)
                            dimension [0..<num_of_points this]).
                  nn_distance (kneighbors query_node1 ! (i * k + k - 1)) < fst c
                  \<or> c = (nn_distance (kneighbors query_node1 ! (i * k + k - 1)),
                          nn_nearest (kneighbors query_node1 ! (i * k + k - 1)))"
    and dist: "\<forall>i<num_of_points query_node.
                 distinct (map (\<lambda>j. nn_distance (kneighbors query_node1 ! (i * k + j))) [0..<k])"
  shows "FindAllNearest env strerror AreTheSame this query_node1 bound1 (Knn k) dimension fp1
         = Inr (query_node1, bound1, fp1)"
proof -
  let ?n = "num_of_points query_node"
  let ?B1 = "knn_block env AreTheSame this k dimension query_node"
  from FindAllNearest_Knn_wf[OF ok wt wq k buf, of strerror AreTheSame bound fp] first
  obtain kn1 where q1: "query_node1 = query_node\<lparr>kneighbors := kn1\<rparr>"
    and inv1: "merged env AreTheSame this k dimension query_node ?n kn1"
    by auto
  have l1: "length kn1 = length (kneighbors query_node)" using inv1 by (simp add: merged_def)
  have wq1: "leaf_wf query_node1 dimension" using wq by (simp add: q1 leaf_wf_def)
  have n1: "num_of_points query_node1 = ?n" by (simp add: q1)
  have kn1: "kneighbors query_node1 = kn1" by (simp add: q1)
  have buf1: "num_of_points query_node1 * k \<le> length (kneighbors query_node1)"
    using buf l1 by (simp add: q1)
  let ?B2 = "knn_block env AreTheSame this k dimension query_node1"
  have far: "\<forall>i<?n. \<forall>c\<in>set (brute_force env AreTheSame this (leaf_point query_node dimension i)
                            dimension [0..<num_of_points this]).
                  nn_distance (kneighbors query_node1 ! (i * k + k - 1)) \<le> fst c"
  proof (intro allI impI ballI)
    fix i c
    assume "i < ?n"
      and "c \<in> set (brute_force env AreTheSame this (leaf_point query_node dimension i)
                       dimension [0..<num_of_points this])"
    with strict
    have "nn_distance (kneighbors query_node1 ! (i * k + k - 1)) < fst c
          \<or> c = (nn_distance (kneighbors query_node1 ! (i * k + k - 1)),
                  nn_nearest (kneighbors query_node1 ! (i * k + k - 1)))"
      by blast
    then show "nn_distance (kneighbors query_node1 ! (i * k + k - 1)) \<le> fst c"
    proof
      assume "nn_distance (kneighbors query_node1 ! (i * k + k - 1)) < fst c"
      then show ?thesis by (rule less_imp_le)
    next
      assume "c = (nn_distance (kneighbors query_node1 ! (i * k + k - 1)),
                   nn_nearest (kneighbors query_node1 ! (i * k + k - 1)))"
      then have "fst c = nn_distance (kneighbors query_node1 ! (i * k + k - 1))"
        by (simp only: fst_conv)
      then show ?thesis by simp
    qed
  qed
  from rerun_distances[OF ok wt wq k buf first far]
  obtain query_node2 where
    r2: "FindAllNearest env strerror AreTheSame this query_node1 bound1 (Knn k) dimension fp1
         = Inr (query_node2, bound1, fp1)"
    by blast
  from FindAllNearest_Knn_wf[OF ok wt wq1 k buf1, of strerror AreTheSame bound1 fp1] r2
  obtain kn2 where q2: "query_node2 = query_node1\<lparr>kneighbors := kn2\<rparr>"
    and inv2: "merged env AreTheSame this k dimension query_node1 ?n kn2"
    unfolding n1 by auto
  have l2: "length kn2 = length kn1" using inv2 by (simp add: merged_def kn1)
  have blocks: "?B2 i = ?B1 i" if i: "i < ?n" for i
  proof -
    have e: "nn_distance (kneighbors query_node1 ! (i * k + k - 1)) = fst (last (?B1 i))"
      using merged_last_cell[OF ok k inv1 buf i] by (simp only: kn1)
    have p: "(nn_distance (kneighbors query_node1 ! (i * k + k - 1)),
              nn_nearest (kneighbors query_node1 ! (i * k + k - 1))) = last (?B1 i)"
      using merged_last_pair[OF ok k inv1 buf i] by (simp only: kn1)
    have "\<forall>c\<in>set (brute_force env AreTheSame this (leaf_point query_node dimension i)
                     dimension [0..<num_of_points this]).
            nn_distance (kneighbors query_node1 ! (i * k + k - 1)) < fst c
            \<or> c = (nn_distance (kneighbors query_node1 ! (i * k + k - 1)),
                    nn_nearest (kneighbors query_node1 ! (i * k + k - 1)))"
      using strict i by blast
    then have s: "\<forall>c\<in>set (brute_force env AreTheSame this (leaf_point query_node dimension i)
                     dimension [0..<num_of_points this]).
            fst (last (?B1 i)) < fst c \<or> c = last (?B1 i)"
      unfolding p unfolding e .
    have "map fst (?B1 i) = map fst (seeds kn1 k i)"
      by (simp only: seeds_of_merged[OF ok inv1 buf i])
    also have "\<dots> = map (\<lambda>j. nn_distance (kn1 ! (i * k + j))) [0..<k]"
      by (simp add: seeds_def)
    finally have "distinct (map fst (?B1 i))" using dist i by (simp add: kn1)
    from second_block_identical[OF ok k inv1 buf i s this] show ?thesis by (simp add: q1)
  qed
  have cell: "kn2 ! c = kn1 ! c" if c: "c < length kn1" for c
  proof (cases "c < ?n * k")
    case True
    have kp: "0 < k" using k by simp
    let ?i = "c div k" and ?j = "c mod k"
    have i: "?i < ?n" using True by (simp add: less_mult_imp_div_less)
    have j: "?j < k" using kp by simp
    have e: "?i * k + ?j = c" by simp
    have c2: "kn2 ! c = store (kn1 ! c) (?B2 ?i ! ?j)"
      using merged_cell[OF inv2 _ i j] buf1 by (simp add: e kn1 n1)
    have c1: "kn1 ! c = store (kneighbors query_node ! c) (?B1 ?i ! ?j)"
      using merged_cell[OF inv1 buf i j] by (simp add: e)
    show ?thesis
      unfolding c2 blocks[OF i] by (subst c1, subst c1) (rule store_store)
  next
    case False
    then show ?thesis
      using merged_beyond[OF inv2, of c] c by (simp add: kn1 n1)
  qed
  have "kn2 = kn1" by (rule nth_equalityI) (simp_all add: l2 cell)
  then have "query_node2 = query_node1" by (simp add: q2 q1)
  with r2 show ?thesis by simp
qed

lemma take_sort_append_differs:
  fixes ds1 ds2 :: "'a::linorder list"
  assumes ne: "ds1 \<noteq> []" and e: "e \<in> set ds2" and lt: "e < last ds1"
  shows "take (length ds1) (sort (ds1 @ ds2)) \<noteq> ds1"
proof
  let ?s = "sort (ds1 @ ds2)"
  assume eq: "take (length ds1) ?s = ds1"
  have split: "?s = ds1 @ drop (length ds1) ?s"
    using append_take_drop_id[of "length ds1" ?s] by (simp only: eq)
  have "mset ?s = mset ds1 + mset ds2" by simp
  moreover have "mset ?s = mset ds1 + mset (drop (length ds1) ?s)"
    by (subst split) simp
  ultimately have "mset (drop (length ds1) ?s) = mset ds2" by simp
  then have "set (drop (length ds1) ?s) = set ds2" by (rule mset_eq_setD)
  with e have er: "e \<in> set (drop (length ds1) ?s)" by simp
  have "sorted (ds1 @ drop (length ds1) ?s)" using split sorted_sort[of "ds1 @ ds2"] by simp
  then have "\<forall>x\<in>set ds1. \<forall>y\<in>set (drop (length ds1) ?s). x \<le> y"
    by (simp add: sorted_append)
  moreover have "last ds1 \<in> set ds1" using ne by simp
  ultimately have "last ds1 \<le> e" using er by blast
  with lt show False by simp
qed

lemma second_block_differs:
  assumes ok: "env_ok env" and k: "1 \<le> k"
    and inv: "merged env AreTheSame this k dimension query_node n kn1"
    and buf: "n * k \<le> length (kneighbors query_node)" and i: "i < n"
    and closer: "c \<in> set (brute_force env AreTheSame this (leaf_point query_node dimension i)
                             dimension [0..<num_of_points this])"
      "fst c < fst (last (knn_block env AreTheSame this k dimension query_node i))"
  shows "map fst (knn_block env AreTheSame this k dimension (query_node\<lparr>kneighbors := kn1\<rparr>) i)
         \<noteq> map fst (knn_block env AreTheSame this k dimension query_node i)"
proof -
  let ?B1 = "knn_block env AreTheSame this k dimension query_node i"
  let ?bf = "brute_force env AreTheSame this (leaf_point query_node dimension i)
               dimension [0..<num_of_points this]"
  have lp: "leaf_point (query_node\<lparr>kneighbors := kn1\<rparr>) dimension i
            = leaf_point query_node dimension i"
    by (simp add: leaf_point_def)
  have sd: "seeds kn1 k i = ?B1" by (rule seeds_of_merged[OF ok inv buf i])
  have l: "length ?B1 = k" by (rule knn_block_length[OF ok])
  then have ne: "map fst ?B1 \<noteq> []" using k by auto
  have lastf: "last (map fst ?B1) = fst (last ?B1)" using ne by (simp add: last_map)
  have e: "fst c \<in> set (map fst ?bf)" using closer(1) by simp
  have lt: "fst c < last (map fst ?B1)" using closer(2) by (simp only: lastf)
  have "map fst (knn_block env AreTheSame this k dimension (query_node\<lparr>kneighbors := kn1\<rparr>) i)
        = take k (sort (map fst ?B1 @ map fst ?bf))"
    using knn_block_distances[OF ok, of AreTheSame this k dimension
            "query_node\<lparr>kneighbors := kn1\<rparr>" i]
    by (simp add: lp sd)
  also have "\<dots> = take (length (map fst ?B1)) (sort (map fst ?B1 @ map fst ?bf))"
    using l by simp
  also have "\<dots> \<noteq> map fst ?B1" by (rule take_sort_append_differs[OF ne e lt])
  finally show ?thesis .
qed

lemma rerun_changes_buffer:
  assumes ok: "env_ok env" and wt: "leaf_wf this dimension" and wq: "leaf_wf query_node dimension"
    and k: "1 \<le> k" and buf: "num_of_points query_node * k \<le> length (kneighbors query_node)"
    and first: "FindAllNearest env strerror AreTheSame this query_node bound (Knn k) dimension fp
                = Inr (query_node1, bound1, fp1)"
    and closer: "\<exists>i<num_of_points query_node.
                \<exists>c\<in>set (brute_force env AreTheSame this (leaf_point query_node dimension i)
                            dimension [0..<num_of_points this]).
                  fst c < nn_distance (kneighbors query_node1 ! (i * k + k - 1))"
  shows "\<exists>query_node2 bound2.
           FindAllNearest env strerror AreTheSame this query_node1 bound1 (Knn k) dimension fp1
             = Inr (query_node2, bound2, fp1)
           \<and> map nn_distance (kneighbors query_node2) \<noteq> map nn_distance (kneighbors query_node1)"
proof -
  let ?n = "num_of_points query_node"
  let ?B1 = "knn_block env AreTheSame this k dimension query_node"
  from FindAllNearest_Knn_wf[OF ok wt wq k buf, of strerror AreTheSame bound fp] first
  obtain kn1 where q1: "query_node1 = query_node\<lparr>kneighbors := kn1\<rparr>"
    and inv1: "merged env AreTheSame this k dimension query_node ?n kn1"
    by auto
  have l1: "length kn1 = length (kneighbors query_node)" using inv1 by (simp add: merged_def)
  have wq1: "leaf_wf query_node1 dimension" using wq by (simp add: q1 leaf_wf_def)
  have n1: "num_of_points query_node1 = ?n" by (simp add: q1)
  have kn1: "kneighbors query_node1 = kn1" by (simp add: q1)
  have buf1: "num_of_points query_node1 * k \<le> length (kneighbors query_node1)"
    using buf l1 by (simp add: q1)
  let ?B2 = "knn_block env AreTheSame this k dimension query_node1"
  from FindAllNearest_Knn_wf[OF ok wt wq1 k buf1, of strerror AreTheSame bound1 fp1]
  obtain kn2 where
    r2: "FindAllNearest env strerror AreTheSame this query_node1 bound1 (Knn k) dimension fp1
         = Inr (query_node1\<lparr>kneighbors := kn2\<rparr>,
                min bound1 (worst_kth env AreTheSame this k dimension query_node1), fp1)"
    and inv2: "merged env AreTheSame this k dimension query_node1 ?n kn2"
    unfolding n1 by auto
  have l2: "length kn2 = length kn1" using inv2 by (simp add: merged_def kn1)
  from closer obtain i c where i: "i < ?n"
    and c: "c \<in> set (brute_force env AreTheSame this (leaf_point query_node dimension i)
                        dimension [0..<num_of_points this])"
    and lt: "fst c < nn_distance (kneighbors query_node1 ! (i * k + k - 1))"
    by blast
  have e: "nn_distance (kneighbors query_node1 ! (i * k + k - 1)) = fst (last (?B1 i))"
    using merged_last_cell[OF ok k inv1 buf i] by (simp only: kn1)
  have lt': "fst c < fst (last (?B1 i))" using lt by (simp only: e)
  have ne: "map fst (?B2 i) \<noteq> map fst (?B1 i)"
    using second_block_differs[OF ok k inv1 buf i c lt'] by (simp add: q1)
  have "map nn_distance kn2 \<noteq> map nn_distance kn1"
  proof
    assume eq: "map nn_distance kn2 = map nn_distance kn1"
    have "map fst (?B2 i) = map fst (?B1 i)"
    proof (rule nth_equalityI)
      show "length (map fst (?B2 i)) = length (map fst (?B1 i))"
        by (simp add: knn_block_length[OF ok])
    next
      fix j assume "j < length (map fst (?B2 i))"
      then have j: "j < k" by (simp add: knn_block_length[OF ok])
      have "Suc i * k \<le> ?n * k" using i by (intro mult_le_mono1) simp
      then have b: "i * k + j < length kn1" using j buf l1 by simp
      have c2: "kn2 ! (i * k + j) = store (kn1 ! (i * k + j)) (?B2 i ! j)"
        using merged_cell[OF inv2 _ i j] buf1 by (simp add: kn1 n1)
      have c1: "kn1 ! (i * k + j) = store (kneighbors query_node ! (i * k + j)) (?B1 i ! j)"
        by (rule merged_cell[OF inv1 buf i j])
      have "nn_distance (kn2 ! (i * k + j)) = nn_distance (kn1 ! (i * k + j))"
        using arg_cong[OF eq, of "\<lambda>xs. xs ! (i * k + j)"] b l2 by simp
      then have "fst (?B2 i ! j) = fst (?B1 i ! j)"
        unfolding c2 by (subst (asm) c1) (simp add: store_distance)
      then show "map fst (?B2 i) ! j = map fst (?B1 i) ! j"
        using j by (simp add: knn_block_length[OF ok])
    qed
    with ne show False by simp
  qed
  then have "map nn_distance (kneighbors (query_node1\<lparr>kneighbors := kn2\<rparr>))
             \<noteq> map nn_distance (kneighbors query_node1)"
    by (simp add: kn1)
  with r2 show ?thesis by blast
qed

text \<open>
  C6, as stated, fails: \<open>FindAllNearest\<close> merges the leaf's points into whatever the
  buffer holds, so a second run merges them a second time. With the reference points
  (1,0) and (3,0), the query point (0,0) and \<open>k = 2\<close>, the first run leaves the
  distances 1 and 9 and the bound 9; the second run, seeded with these, leaves the point
  (1,0) twice, with the distances 1 and 1, and the bound 1.
\<close>

theorem rerun_counterexample:
  "FindAllNearest int_env strerror_linux same_id two_point_leaf one_point_query 100 (Knn 2) 2
       \<lparr>written = [], outcomes = []\<rparr>
     = Inr (one_point_query\<lparr>kneighbors := [slot 0 [1,0] 1 1, slot 0 [3,0] 2 9]\<rparr>, 9,
            \<lparr>written = [], outcomes = []\<rparr>)
   \<and> FindAllNearest int_env strerror_linux same_id two_point_leaf
       (one_point_query\<lparr>kneighbors := [slot 0 [1,0] 1 1, slot 0 [3,0] 2 9]\<rparr>) 9 (Knn 2) 2
       \<lparr>written = [], outcomes = []\<rparr>
     = Inr (one_point_query\<lparr>kneighbors := [slot 0 [1,0] 1 1, slot 0 [1,0] 1 1]\<rparr>, 1,
            \<lparr>written = [], outcomes = []\<rparr>)
   \<and> [slot 0 [1,0] 1 1, slot 0 [1,0] 1 1] \<noteq> [slot 0 [1,0] 1 1, slot 0 [3,0] 2 9]"
  by code_simp

text \<open>
  C6, amended. On well-formed nodes, with a conforming sort and a comparator that
  orders by distance, let the first run have returned. If every non-excluded point of
  the leaf either is strictly farther from each query point than the distance in that
  point's last cell or is the neighbour stored in that cell, at that distance, and the
  \<open>k\<close> distances stored for each query point are pairwise different, then the second
  run, seeded from the buffer the first run wrote, returns the same query node, buffer
  included, and the same bound. If the points of the leaf are only known to be no
  closer than the distance in the last cell, the second run still returns the same
  bound and leaves every cell's distance as it was; a point of the leaf at exactly
  that distance may then take the place of a stored neighbour. And if a non-excluded
  point of the leaf is strictly closer to some query point than the distance in that
  point's last cell, the second run returns with other distances in the buffer than the
  first run left.
\<close>

theorem rerun_identical:
  assumes ok: "env_ok env" and wt: "leaf_wf this dimension" and wq: "leaf_wf query_node dimension"
    and k: "1 \<le> k" and buf: "num_of_points query_node * k \<le> length (kneighbors query_node)"
    and first: "FindAllNearest env strerror AreTheSame this query_node bound (Knn k) dimension fp
                = Inr (query_node1, bound1, fp1)"
  shows "((\<forall>i<num_of_points query_node.
             \<forall>c\<in>set (brute_force env AreTheSame this (leaf_point query_node dimension i)
                         dimension [0..<num_of_points this]).
               nn_distance (kneighbors query_node1 ! (i * k + k - 1)) < fst c
               \<or> c = (nn_distance (kneighbors query_node1 ! (i * k + k - 1)),
                       nn_nearest (kneighbors query_node1 ! (i * k + k - 1)))) \<longrightarrow>
          (\<forall>i<num_of_points query_node.
             distinct (map (\<lambda>j. nn_distance (kneighbors query_node1 ! (i * k + j))) [0..<k])) \<longrightarrow>
          FindAllNearest env strerror AreTheSame this query_node1 bound1 (Knn k) dimension fp1
            = Inr (query_node1, bound1, fp1))
         \<and> ((\<forall>i<num_of_points query_node.
               \<forall>c\<in>set (brute_force env AreTheSame this (leaf_point query_node dimension i)
                           dimension [0..<num_of_points this]).
                 nn_distance (kneighbors query_node1 ! (i * k + k - 1)) \<le> fst c) \<longrightarrow>
             (\<exists>query_node2.
                FindAllNearest env strerror AreTheSame this query_node1 bound1 (Knn k) dimension fp1
                  = Inr (query_node2, bound1, fp1)
                \<and> map nn_distance (kneighbors query_node2)
                    = map nn_distance (kneighbors query_node1)))
         \<and> ((\<exists>i<num_of_points query_node.
               \<exists>c\<in>set (brute_force env AreTheSame this (leaf_point query_node dimension i)
                           dimension [0..<num_of_points this]).
                 fst c < nn_distance (kneighbors query_node1 ! (i * k + k - 1))) \<longrightarrow>
             (\<exists>query_node2 bound2.
                FindAllNearest env strerror AreTheSame this query_node1 bound1 (Knn k) dimension fp1
                  = Inr (query_node2, bound2, fp1)
                \<and> map nn_distance (kneighbors query_node2)
                    \<noteq> map nn_distance (kneighbors query_node1)))"
proof (intro conjI impI)
  assume "\<forall>i<num_of_points query_node.
             \<forall>c\<in>set (brute_force env AreTheSame this (leaf_point query_node dimension i)
                         dimension [0..<num_of_points this]).
               nn_distance (kneighbors query_node1 ! (i * k + k - 1)) < fst c
               \<or> c = (nn_distance (kneighbors query_node1 ! (i * k + k - 1)),
                       nn_nearest (kneighbors query_node1 ! (i * k + k - 1)))"
    and "\<forall>i<num_of_points query_node.
             distinct (map (\<lambda>j. nn_distance (kneighbors query_node1 ! (i * k + j))) [0..<k])"
  then show "FindAllNearest env strerror AreTheSame this query_node1 bound1 (Knn k) dimension fp1
            = Inr (query_node1, bound1, fp1)"
    by (rule rerun_same_buffer[OF ok wt wq k buf first])
next
  assume "\<forall>i<num_of_points query_node.
               \<forall>c\<in>set (brute_force env AreTheSame this (leaf_point query_node dimension i)
                           dimension [0..<num_of_points this]).
                 nn_distance (kneighbors query_node1 ! (i * k + k - 1)) \<le> fst c"
  from rerun_distances[OF ok wt wq k buf first this]
  show "\<exists>query_node2.
                FindAllNearest env strerror AreTheSame this query_node1 bound1 (Knn k) dimension fp1
                  = Inr (query_node2, bound1, fp1)
                \<and> map nn_distance (kneighbors query_node2)
                    = map nn_distance (kneighbors query_node1)"
    by blast
next
  assume "\<exists>i<num_of_points query_node.
               \<exists>c\<in>set (brute_force env AreTheSame this (leaf_point query_node dimension i)
                           dimension [0..<num_of_points this]).
                 fst c < nn_distance (kneighbors query_node1 ! (i * k + k - 1))"
  then show "\<exists>query_node2 bound2.
                FindAllNearest env strerror AreTheSame this query_node1 bound1 (Knn k) dimension fp1
                  = Inr (query_node2, bound2, fp1)
                \<and> map nn_distance (kneighbors query_node2)
                    \<noteq> map nn_distance (kneighbors query_node1)"
    by (rule rerun_changes_buffer[OF ok wt wq k buf first])
qed

theorem rerun_identical_witness:
  "env_ok int_env \<and> leaf_wf far_leaf 2 \<and> leaf_wf unsorted_query 2
   \<and> num_of_points unsorted_query * 2 \<le> length (kneighbors unsorted_query)
   \<and> FindAllNearest int_env strerror_linux same_id far_leaf unsorted_query 100 (Knn 2) 2
         \<lparr>written = [], outcomes = []\<rparr>
       = Inr (unsorted_query\<lparr>kneighbors := [slot 0 [0,1] 5 1, slot 0 [3,0] 1 9]\<rparr>, 9,
              \<lparr>written = [], outcomes = []\<rparr>)
   \<and> FindAllNearest int_env strerror_linux same_id far_leaf
         (unsorted_query\<lparr>kneighbors := [slot 0 [0,1] 5 1, slot 0 [3,0] 1 9]\<rparr>) 9 (Knn 2) 2
         \<lparr>written = [], outcomes = []\<rparr>
       = Inr (unsorted_query\<lparr>kneighbors := [slot 0 [0,1] 5 1, slot 0 [3,0] 1 9]\<rparr>, 9,
              \<lparr>written = [], outcomes = []\<rparr>)
   \<and> leaf_wf two_point_leaf 2 \<and> leaf_wf one_point_query 2
   \<and> num_of_points one_point_query * 2 \<le> length (kneighbors one_point_query)
   \<and> FindAllNearest int_env strerror_linux same_id two_point_leaf one_point_query 100 (Knn 2) 2
         \<lparr>written = [], outcomes = []\<rparr>
       = Inr (one_point_query\<lparr>kneighbors := [slot 0 [1,0] 1 1, slot 0 [3,0] 2 9]\<rparr>, 9,
              \<lparr>written = [], outcomes = []\<rparr>)
   \<and> (\<exists>query_node2 bound2.
         FindAllNearest int_env strerror_linux same_id two_point_leaf
           (one_point_query\<lparr>kneighbors := [slot 0 [1,0] 1 1, slot 0 [3,0] 2 9]\<rparr>) 9 (Knn 2) 2
           \<lparr>written = [], outcomes = []\<rparr>
         = Inr (query_node2, bound2, \<lparr>written = [], outcomes = []\<rparr>)
         \<and> map nn_distance (kneighbors query_node2) \<noteq> [1, 9])"
proof -
  let ?fp = "\<lparr>written = [], outcomes = []\<rparr> :: int FILE"
  let ?Q1 = "unsorted_query\<lparr>kneighbors := [slot 0 [0,1] 5 1, slot 0 [3,0] 1 9]\<rparr>"
  have wt: "leaf_wf far_leaf 2" by code_simp
  have wq: "leaf_wf unsorted_query 2" by code_simp
  have buf: "num_of_points unsorted_query * 2 \<le> length (kneighbors unsorted_query)" by code_simp
  have k: "(1::nat) \<le> 2" by simp
  have first: "FindAllNearest int_env strerror_linux same_id far_leaf unsorted_query 100
                 (Knn 2) 2 ?fp = Inr (?Q1, 9, ?fp)"
    by code_simp
  have np: "num_of_points unsorted_query = 1" by code_simp
  have cs: "list_all (\<lambda>c. nn_distance (kneighbors ?Q1 ! (0 * 2 + 2 - 1)) < fst c
                          \<or> c = (nn_distance (kneighbors ?Q1 ! (0 * 2 + 2 - 1)),
                                  nn_nearest (kneighbors ?Q1 ! (0 * 2 + 2 - 1))))
              (brute_force int_env same_id far_leaf (leaf_point unsorted_query 2 0) 2
                 [0..<num_of_points far_leaf])"
    by code_simp
  have strict: "\<forall>i<num_of_points unsorted_query.
               \<forall>c\<in>set (brute_force int_env same_id far_leaf (leaf_point unsorted_query 2 i) 2
                           [0..<num_of_points far_leaf]).
                 nn_distance (kneighbors ?Q1 ! (i * 2 + 2 - 1)) < fst c
                 \<or> c = (nn_distance (kneighbors ?Q1 ! (i * 2 + 2 - 1)),
                         nn_nearest (kneighbors ?Q1 ! (i * 2 + 2 - 1)))"
    using cs by (simp add: np list_all_iff)
  have ds: "distinct (map (\<lambda>j. nn_distance (kneighbors ?Q1 ! (0 * 2 + j))) [0..<2])"
    by code_simp
  have dist: "\<forall>i<num_of_points unsorted_query.
                distinct (map (\<lambda>j. nn_distance (kneighbors ?Q1 ! (i * 2 + j))) [0..<2])"
    using ds by (simp add: np)
  from rerun_identical[OF int_env_ok wt wq k buf first, THEN conjunct1] strict dist
  have A: "FindAllNearest int_env strerror_linux same_id far_leaf ?Q1 9 (Knn 2) 2 ?fp
        = Inr (?Q1, 9, ?fp)"
    by blast
  let ?P1 = "one_point_query\<lparr>kneighbors := [slot 0 [1,0] 1 1, slot 0 [3,0] 2 9]\<rparr>"
  have wt2: "leaf_wf two_point_leaf 2" by code_simp
  have wq2: "leaf_wf one_point_query 2" by code_simp
  have buf2: "num_of_points one_point_query * 2 \<le> length (kneighbors one_point_query)"
    by code_simp
  have first2: "FindAllNearest int_env strerror_linux same_id two_point_leaf one_point_query 100
                  (Knn 2) 2 ?fp = Inr (?P1, 9, ?fp)"
    by code_simp
  have np2: "num_of_points one_point_query = 1" by code_simp
  have ce: "list_ex (\<lambda>c. fst c < nn_distance (kneighbors ?P1 ! (0 * 2 + 2 - 1)))
              (brute_force int_env same_id two_point_leaf (leaf_point one_point_query 2 0) 2
                 [0..<num_of_points two_point_leaf])"
    by code_simp
  have closer: "\<exists>i<num_of_points one_point_query.
               \<exists>c\<in>set (brute_force int_env same_id two_point_leaf
                           (leaf_point one_point_query 2 i) 2 [0..<num_of_points two_point_leaf]).
                 fst c < nn_distance (kneighbors ?P1 ! (i * 2 + 2 - 1))"
    using ce by (simp add: np2 list_ex_iff)
  have ds: "map nn_distance (kneighbors ?P1) = [1, 9]" by code_simp
  from rerun_identical[OF int_env_ok wt2 wq2 k buf2 first2, THEN conjunct2, THEN conjunct2] closer
  have "\<exists>query_node2 bound2.
          FindAllNearest int_env strerror_linux same_id two_point_leaf ?P1 9 (Knn 2) 2 ?fp
            = Inr (query_node2, bound2, ?fp)
          \<and> map nn_distance (kneighbors query_node2) \<noteq> map nn_distance (kneighbors ?P1)"
    by blast
  then have B: "\<exists>query_node2 bound2.
          FindAllNearest int_env strerror_linux same_id two_point_leaf ?P1 9 (Knn 2) 2 ?fp
            = Inr (query_node2, bound2, ?fp)
          \<and> map nn_distance (kneighbors query_node2) \<noteq> [1, 9]"
    by (simp only: ds)
  show ?thesis using int_env_ok wt wq buf first A wt2 wq2 buf2 first2 B by blast
qed

section \<open>Self-matches\<close>

lemma leaf_point_id: "get_id (leaf_point node dimension i) = index node ! i"
  by (simp add: leaf_point_def)

lemma brute_force_excludes:
  assumes "c \<in> set (brute_force env AreTheSame node query_point dimension is)"
  shows "\<not> AreTheSame (get_id (snd c)) (get_id query_point)"
  using assms by (auto simp: brute_force_def leaf_point_id)

lemma range_records_exclude:
  assumes "\<forall>x. AreTheSame x x"
    and "result \<in> set (range_records env AreTheSame this r dimension query_node)"
  shows "get_id (nn_nearest result) \<noteq> nn_point_id result"
proof -
  from assms(2) obtain i s where
    s: "s \<in> set (radius_slots env AreTheSame this (leaf_point query_node dimension i) r dimension)"
    and r: "result = NNResult_of (index query_node ! i)
                       (entry env this (leaf_point query_node dimension i) dimension s)"
    by (auto simp: range_records_def)
  have "\<not> AreTheSame (index this ! s) (index query_node ! i)"
    using s by (simp add: radius_slots_def leaf_point_id)
  then have "index this ! s \<noteq> index query_node ! i" using assms(1) by auto
  then show ?thesis by (simp add: r NNResult_of_def entry_def leaf_point_id)
qed

lemma stream_after_range:
  assumes "leaf_wf this dimension" "leaf_wf query_node dimension"
  shows "\<exists>n. written (stream_after (FindAllNearest env strerror AreTheSame this query_node bound
                                       (Radius r) dimension fp))
              = written fp @ take n (range_records env AreTheSame this r dimension query_node)"
proof (cases "first_fault (outcomes fp)
                (length (range_records env AreTheSame this r dimension query_node))")
  case None
  then have "written (stream_after (FindAllNearest env strerror AreTheSame this query_node bound
                                       (Radius r) dimension fp))
             = written fp @ take (length (range_records env AreTheSame this r dimension query_node))
                 (range_records env AreTheSame this r dimension query_node)"
    by (simp add: FindAllNearest_Radius_wf[OF assms] stream_after_def)
  then show ?thesis by blast
next
  case (Some a)
  then show ?thesis
    by (cases a) (auto simp: FindAllNearest_Radius_wf[OF assms] stream_after_def)
qed

lemma self_match_sources:
  assumes ok: "env_ok env" and wt: "leaf_wf this dimension" and wq: "leaf_wf query_node dimension"
    and excl: "\<forall>x. AreTheSame x x"
  shows "(\<exists>result. FindNearest env AreTheSame this query_point nearest range0 dimension = Inr result
            \<and> (\<forall>c\<in>set result. get_id (snd c) = get_id query_point
                  \<longrightarrow> c \<in> set nearest \<or> c = (numeric_limits_max env, Point_default env)))
         \<and> (\<exists>new. written (stream_after (FindAllNearest env strerror AreTheSame this query_node
                                            bound (Radius r) dimension fp))
                     = written fp @ new
                   \<and> (\<forall>result\<in>set new. get_id (nn_nearest result) \<noteq> nn_point_id result))
         \<and> (1 \<le> k \<longrightarrow> num_of_points query_node * k \<le> length (kneighbors query_node) \<longrightarrow>
              (\<exists>query_node' bound'.
                 FindAllNearest env strerror AreTheSame this query_node bound (Knn k) dimension fp
                   = Inr (query_node', bound', fp)
                 \<and> (\<forall>i<num_of_points query_node. \<forall>j<k.
                       get_id (nn_nearest (kneighbors query_node' ! (i * k + j)))
                         = index query_node ! i
                       \<longrightarrow> (\<exists>j'<k. nn_nearest (kneighbors query_node' ! (i * k + j))
                                     = nn_nearest (kneighbors query_node ! (i * k + j'))))))"
proof (intro conjI impI)
  let ?bf = "brute_force env AreTheSame this query_point dimension [0..<num_of_points this]"
  have new: "get_id (snd c) \<noteq> get_id query_point" if "c \<in> set ?bf" for c
    using brute_force_excludes[OF that] excl by auto
  show "\<exists>result. FindNearest env AreTheSame this query_point nearest range0 dimension = Inr result
            \<and> (\<forall>c\<in>set result. get_id (snd c) = get_id query_point
                  \<longrightarrow> c \<in> set nearest \<or> c = (numeric_limits_max env, Point_default env))"
  proof (cases range0)
    case (Radius r0)
    show ?thesis
      unfolding Radius FindNearest_Radius_wf[OF wt] using new by auto
  next
    case (Knn k0)
    show ?thesis
      unfolding Knn FindNearest_Knn_wf[OF wt]
      using knn_trim_subset[OF ok, of k0 "nearest @ ?bf"] new by auto
  qed
next
  from stream_after_range[OF wt wq, of env strerror AreTheSame bound r fp]
  obtain n where
    w: "written (stream_after (FindAllNearest env strerror AreTheSame this query_node bound
                                 (Radius r) dimension fp))
        = written fp @ take n (range_records env AreTheSame this r dimension query_node)"
    by blast
  have "\<forall>result\<in>set (take n (range_records env AreTheSame this r dimension query_node)).
          get_id (nn_nearest result) \<noteq> nn_point_id result"
    using range_records_exclude[where AreTheSame = AreTheSame, OF excl] by (meson in_set_takeD)
  with w show "\<exists>new. written (stream_after (FindAllNearest env strerror AreTheSame this query_node
                                            bound (Radius r) dimension fp))
                     = written fp @ new
                   \<and> (\<forall>result\<in>set new. get_id (nn_nearest result) \<noteq> nn_point_id result)"
    by blast
next
  assume k: "1 \<le> k" and buf: "num_of_points query_node * k \<le> length (kneighbors query_node)"
  from FindAllNearest_Knn_wf[OF ok wt wq k buf, of strerror AreTheSame bound fp]
  obtain kn' where
    r: "FindAllNearest env strerror AreTheSame this query_node bound (Knn k) dimension fp
        = Inr (query_node\<lparr>kneighbors := kn'\<rparr>,
               min bound (worst_kth env AreTheSame this k dimension query_node), fp)"
    and inv: "merged env AreTheSame this k dimension query_node (num_of_points query_node) kn'"
    by blast
  have cell: "\<exists>j'<k. nn_nearest (kn' ! (i * k + j)) = nn_nearest (kneighbors query_node ! (i * k + j'))"
    if i: "i < num_of_points query_node" and j: "j < k"
      and same: "get_id (nn_nearest (kn' ! (i * k + j))) = index query_node ! i" for i j
  proof -
    let ?B = "knn_block env AreTheSame this k dimension query_node i"
    let ?sd = "seeds (kneighbors query_node) k i"
    let ?bf = "brute_force env AreTheSame this (leaf_point query_node dimension i) dimension
                 [0..<num_of_points this]"
    have n: "nn_nearest (kn' ! (i * k + j)) = snd (?B ! j)"
      using merged_cell[OF inv buf i j] by (simp add: store_nearest)
    have "?B ! j \<in> set ?B" using j by (simp add: knn_block_length[OF ok])
    moreover have "set ?B \<subseteq> set (?sd @ ?bf)"
      unfolding knn_block_def by (rule knn_trim_subset_full[OF ok]) (simp add: seeds_length)
    ultimately have "?B ! j \<in> set ?sd \<or> ?B ! j \<in> set ?bf" by auto
    moreover have "?B ! j \<notin> set ?bf"
    proof
      assume "?B ! j \<in> set ?bf"
      from brute_force_excludes[OF this] excl
      have "get_id (snd (?B ! j)) \<noteq> index query_node ! i"
        by (auto simp: leaf_point_id)
      then show False using same n by simp
    qed
    ultimately have "?B ! j \<in> set ?sd" by blast
    then obtain j' where "j' < k" "?B ! j = (nn_distance (kneighbors query_node ! (i * k + j')),
                                            nn_nearest (kneighbors query_node ! (i * k + j')))"
      by (auto simp: seeds_def)
    then show ?thesis using n by auto
  qed
  show "\<exists>query_node' bound'.
          FindAllNearest env strerror AreTheSame this query_node bound (Knn k) dimension fp
            = Inr (query_node', bound', fp)
          \<and> (\<forall>i<num_of_points query_node. \<forall>j<k.
                get_id (nn_nearest (kneighbors query_node' ! (i * k + j))) = index query_node ! i
                \<longrightarrow> (\<exists>j'<k. nn_nearest (kneighbors query_node' ! (i * k + j))
                              = nn_nearest (kneighbors query_node ! (i * k + j'))))"
    using r cell by auto
qed

text \<open>
  C5. Let the discriminator exclude self-matches, on well-formed nodes with a
  conforming sort and a comparator that orders by distance. \<open>FindNearest\<close>, in either
  mode, started from a candidate list that holds no entry with the query point's id
  (the empty list, for one) and with a default-constructed sentinel point that is not
  the query point, returns no entry with the query point's id. Every record that
  range-mode \<open>FindAllNearest\<close> writes has a neighbour id other than its point id,
  whether the query returns or aborts. And after \<open>FindAllNearest\<close> for \<open>k\<close>
  neighbours, no cell of a query point holds a neighbour with that point's id, if none
  did before the call.
\<close>

theorem no_self_match:
  assumes ok: "env_ok env" and wt: "leaf_wf this dimension" and wq: "leaf_wf query_node dimension"
    and excl: "\<forall>x. AreTheSame x x"
  shows "((\<forall>c\<in>set nearest. get_id (snd c) \<noteq> get_id query_point) \<longrightarrow>
          get_id (Point_default env) \<noteq> get_id query_point \<longrightarrow>
          (\<exists>result. FindNearest env AreTheSame this query_point nearest range0 dimension = Inr result
             \<and> (\<forall>c\<in>set result. get_id (snd c) \<noteq> get_id query_point)))
         \<and> (\<exists>new. written (stream_after (FindAllNearest env strerror AreTheSame this query_node
                                            bound (Radius r) dimension fp))
                     = written fp @ new
                   \<and> (\<forall>result\<in>set new. get_id (nn_nearest result) \<noteq> nn_point_id result))
         \<and> (1 \<le> k \<longrightarrow> num_of_points query_node * k \<le> length (kneighbors query_node) \<longrightarrow>
              (\<forall>i<num_of_points query_node. \<forall>j<k.
                 get_id (nn_nearest (kneighbors query_node ! (i * k + j))) \<noteq> index query_node ! i) \<longrightarrow>
              (\<exists>query_node' bound'.
                 FindAllNearest env strerror AreTheSame this query_node bound (Knn k) dimension fp
                   = Inr (query_node', bound', fp)
                 \<and> (\<forall>i<num_of_points query_node. \<forall>j<k.
                       get_id (nn_nearest (kneighbors query_node' ! (i * k + j)))
                         \<noteq> index query_node ! i)))"
proof (intro conjI impI)
  assume clean: "\<forall>c\<in>set nearest. get_id (snd c) \<noteq> get_id query_point"
    and dflt: "get_id (Point_default env) \<noteq> get_id query_point"
  from self_match_sources[where AreTheSame = AreTheSame, OF ok wt wq excl]
  obtain result where
    r: "FindNearest env AreTheSame this query_point nearest range0 dimension = Inr result"
    and s: "\<forall>c\<in>set result. get_id (snd c) = get_id query_point
              \<longrightarrow> c \<in> set nearest \<or> c = (numeric_limits_max env, Point_default env)"
    by blast
  have "get_id (snd c) \<noteq> get_id query_point" if c: "c \<in> set result" for c
  proof
    assume e: "get_id (snd c) = get_id query_point"
    with s c have "c \<in> set nearest \<or> c = (numeric_limits_max env, Point_default env)" by blast
    then show False using e clean dflt by auto
  qed
  with r show "\<exists>result. FindNearest env AreTheSame this query_point nearest range0 dimension
                         = Inr result
                 \<and> (\<forall>c\<in>set result. get_id (snd c) \<noteq> get_id query_point)"
    by blast
next
  from self_match_sources[where AreTheSame = AreTheSame, OF ok wt wq excl]
  show "\<exists>new. written (stream_after (FindAllNearest env strerror AreTheSame this query_node
                                            bound (Radius r) dimension fp))
                     = written fp @ new
                   \<and> (\<forall>result\<in>set new. get_id (nn_nearest result) \<noteq> nn_point_id result)"
    by blast
next
  assume k: "1 \<le> k" and buf: "num_of_points query_node * k \<le> length (kneighbors query_node)"
    and clean: "\<forall>i<num_of_points query_node. \<forall>j<k.
                 get_id (nn_nearest (kneighbors query_node ! (i * k + j))) \<noteq> index query_node ! i"
  from self_match_sources[where AreTheSame = AreTheSame and k = k, OF ok wt wq excl] k buf
  obtain query_node' bound' where
    r: "FindAllNearest env strerror AreTheSame this query_node bound (Knn k) dimension fp
        = Inr (query_node', bound', fp)"
    and s: "\<forall>i<num_of_points query_node. \<forall>j<k.
              get_id (nn_nearest (kneighbors query_node' ! (i * k + j))) = index query_node ! i
              \<longrightarrow> (\<exists>j'<k. nn_nearest (kneighbors query_node' ! (i * k + j))
                            = nn_nearest (kneighbors query_node ! (i * k + j')))"
    by blast
  have "get_id (nn_nearest (kneighbors query_node' ! (i * k + j))) \<noteq> index query_node ! i"
    if i: "i < num_of_points query_node" and j: "j < k" for i j
  proof
    assume e: "get_id (nn_nearest (kneighbors query_node' ! (i * k + j))) = index query_node ! i"
    with s i j obtain j' where "j' < k"
      "nn_nearest (kneighbors query_node' ! (i * k + j))
       = nn_nearest (kneighbors query_node ! (i * k + j'))"
      by blast
    with e clean i show False by auto
  qed
  with r show "\<exists>query_node' bound'.
                 FindAllNearest env strerror AreTheSame this query_node bound (Knn k) dimension fp
                   = Inr (query_node', bound', fp)
                 \<and> (\<forall>i<num_of_points query_node. \<forall>j<k.
                       get_id (nn_nearest (kneighbors query_node' ! (i * k + j)))
                         \<noteq> index query_node ! i)"
    by blast
qed

theorem no_self_match_witness:
  "(\<forall>x. same_id x x) \<and> env_ok int_env \<and> leaf_wf plane_leaf 2
   \<and> leaf_wf (with_buffer plane_leaf 8) 2
   \<and> get_id (Point_default int_env) \<noteq> get_id \<lparr>get_ptr = [0,1::int], get_id = 2\<rparr>
   \<and> (\<exists>result. FindNearest int_env same_id plane_leaf \<lparr>get_ptr = [0,1], get_id = 2\<rparr> []
                    (Knn 5) 2 = Inr result
         \<and> list_all (\<lambda>c. get_id (snd c) \<noteq> 2) result)
   \<and> (\<exists>query_node' bound'.
         FindAllNearest int_env strerror_linux same_id plane_leaf (with_buffer plane_leaf 8) 100
           (Knn 2) 2 \<lparr>written = [], outcomes = []\<rparr>
         = Inr (query_node', bound', \<lparr>written = [], outcomes = []\<rparr>)
         \<and> list_all (\<lambda>c. get_id (nn_nearest (kneighbors query_node' ! c))
                           \<noteq> index plane_leaf ! (c div 2)) [0..<8])"
proof -
  let ?Q = "with_buffer plane_leaf 8"
  let ?fp = "\<lparr>written = [], outcomes = []\<rparr> :: int FILE"
  have wf: "leaf_wf plane_leaf 2" by (simp add: plane_leaf_def leaf_of_wf)
  have wq: "leaf_wf ?Q 2" by code_simp
  have ex: "\<forall>x. same_id x x" by (simp add: same_id_def)
  have dflt: "get_id (Point_default int_env) \<noteq> get_id \<lparr>get_ptr = [0,1::int], get_id = 2\<rparr>"
    by (simp add: int_env_def)
  note t = no_self_match[where AreTheSame = same_id and env = int_env and this = plane_leaf
      and query_node = ?Q and dimension = 2
      and query_point = "\<lparr>get_ptr = [0,1], get_id = 2\<rparr>" and nearest = "[]"
      and ?range0.0 = "Knn 5" and k = 2 and bound = 100 and fp = ?fp
      and strerror = strerror_linux and r = 1, OF int_env_ok wf wq ex]
  have "\<forall>c\<in>set []. get_id (snd c) \<noteq> get_id \<lparr>get_ptr = [0,1::int], get_id = 2\<rparr>"
    by simp
  with t[THEN conjunct1] dflt obtain result where
    r: "FindNearest int_env same_id plane_leaf \<lparr>get_ptr = [0,1], get_id = 2\<rparr> [] (Knn 5) 2
        = Inr result"
    and e: "\<forall>c\<in>set result. get_id (snd c) \<noteq> get_id \<lparr>get_ptr = [0,1::int], get_id = 2\<rparr>"
    by blast
  have A: "\<exists>result. FindNearest int_env same_id plane_leaf \<lparr>get_ptr = [0,1], get_id = 2\<rparr> []
                    (Knn 5) 2 = Inr result
         \<and> list_all (\<lambda>c. get_id (snd c) \<noteq> 2) result"
    using r e by (auto simp: list_all_iff)
  have buf: "num_of_points ?Q * 2 \<le> length (kneighbors ?Q)" by code_simp
  have np: "num_of_points ?Q = 4" by code_simp
  have ixq: "index ?Q = index plane_leaf" by code_simp
  have cl: "list_all (\<lambda>c. get_id (nn_nearest (kneighbors ?Q ! c)) \<noteq> index ?Q ! (c div 2)) [0..<8]"
    by code_simp
  have clean: "\<forall>i<num_of_points ?Q. \<forall>j<2.
                 get_id (nn_nearest (kneighbors ?Q ! (i * 2 + j))) \<noteq> index ?Q ! i"
  proof (intro allI impI)
    fix i j :: nat assume i: "i < num_of_points ?Q" and j: "j < 2"
    have a: "i * 2 + j \<in> set [0..<8]" using i j np by simp
    have b: "(i * 2 + j) div 2 = i" using j by simp
    have "get_id (nn_nearest (kneighbors ?Q ! (i * 2 + j))) \<noteq> index ?Q ! ((i * 2 + j) div 2)"
      using cl a unfolding list_all_iff by blast
    then show "get_id (nn_nearest (kneighbors ?Q ! (i * 2 + j))) \<noteq> index ?Q ! i"
      unfolding b .
  qed
  have k: "(1::nat) \<le> 2" by simp
  from t[THEN conjunct2, THEN conjunct2] k buf clean obtain query_node' bound' where
    r2: "FindAllNearest int_env strerror_linux same_id plane_leaf ?Q 100 (Knn 2) 2 ?fp
         = Inr (query_node', bound', ?fp)"
    and e2: "\<forall>i<num_of_points ?Q. \<forall>j<2.
               get_id (nn_nearest (kneighbors query_node' ! (i * 2 + j))) \<noteq> index ?Q ! i"
    by blast
  have "get_id (nn_nearest (kneighbors query_node' ! c)) \<noteq> index plane_leaf ! (c div 2)"
    if c: "c < 8" for c
  proof -
    have i: "c div 2 < num_of_points ?Q" using c np by simp
    have j: "c mod 2 < 2" by simp
    have "c div 2 * 2 + c mod 2 = c" by simp
    with e2 i j show ?thesis unfolding ixq by metis
  qed
  then have "list_all (\<lambda>c. get_id (nn_nearest (kneighbors query_node' ! c))
                           \<noteq> index plane_leaf ! (c div 2)) [0..<8]"
    by (simp add: list_all_iff)
  with r2 have B: "\<exists>query_node' bound'.
         FindAllNearest int_env strerror_linux same_id plane_leaf ?Q 100 (Knn 2) 2 ?fp
         = Inr (query_node', bound', ?fp)
         \<and> list_all (\<lambda>c. get_id (nn_nearest (kneighbors query_node' ! c))
                           \<noteq> index plane_leaf ! (c div 2)) [0..<8]"
    by blast
  show ?thesis using ex int_env_ok wf wq dflt A B by blast
qed

end
